theory Spec2Isabelle
  imports Main "HOL-Library.Char_ord" "HOL-Library.List_Lexorder" "HOL-Library.Product_Lexorder"
begin

section \<open>Data model of the lab scheduler (src/app.py)\<close>

text \<open>
  The SQLAlchemy tables become lists of records, in table order. Integer columns are
  Python ints (\<open>int\<close>), nullable foreign keys are \<open>int option\<close>, string columns are
  \<open>string\<close>. Dates are day ordinals (\<open>date.toordinal()\<close>, so \<open>date.min\<close> is 1 and
  \<open>date.max\<close> is 3652059), and
  \<open>created_at\<close> is a timestamp, always set by the column default. The nullable Boolean
  \<open>is_active\<close> is a \<open>bool\<close>: the code reads it only through \<open>filter_by(is_active=True)\<close>
  and through Python truthiness, and both treat NULL as false.
\<close>

record lab =
  l_id :: int
  l_name :: string
  l_subject_group :: string
  l_capacity :: int
  l_is_active :: bool

record user =
  u_id :: int
  u_full_name :: string
  u_role :: string
  u_preferred_lab_id :: "int option"

record week_schedule =
  w_id :: int
  w_start_date :: int
  w_end_date :: int
  w_is_active :: bool

record lab_request =
  q_id :: int
  q_teacher_id :: int
  q_class_name :: string
  q_num_students :: int
  q_lab_group :: string
  q_week_id :: "int option"
  q_date :: int
  q_period :: int
  q_status :: string
  q_preferred_lab_id :: "int option"
  q_created_at :: int

record reservation =
  r_id :: int
  r_lab_id :: int
  r_request_id :: int
  r_date :: int
  r_period :: int

record db =
  labs :: "lab list"
  users :: "user list"
  weeks :: "week_schedule list"
  requests :: "lab_request list"
  reservations :: "reservation list"

text \<open>Python truthiness of a nullable integer: None and 0 are false.\<close>

definition truthy :: "int option \<Rightarrow> bool" where
  "truthy x = (case x of None \<Rightarrow> False | Some n \<Rightarrow> n \<noteq> 0)"

text \<open>The primary key handed out by the database on insert.\<close>

definition next_id :: "int list \<Rightarrow> int" where
  "next_id ids = foldr max ids 0 + 1"

text \<open>\<open>db.session.get(Lab, i)\<close>, \<open>req.teacher\<close>, \<open>LabRequest.query.get(i)\<close>.\<close>

definition get_lab :: "db \<Rightarrow> int \<Rightarrow> lab option" where
  "get_lab s i = find (\<lambda>l. l_id l = i) (labs s)"

definition teacher_of :: "db \<Rightarrow> lab_request \<Rightarrow> user option" where
  "teacher_of s req = find (\<lambda>u. u_id u = q_teacher_id req) (users s)"

definition get_request :: "db \<Rightarrow> int \<Rightarrow> lab_request option" where
  "get_request s i = find (\<lambda>q. q_id q = i) (requests s)"

definition get_week :: "db \<Rightarrow> int \<Rightarrow> week_schedule option" where
  "get_week s i = find (\<lambda>w. w_id w = i) (weeks s)"

text \<open>The default group: the UTF-8 bytes of the source's literal.\<close>

definition default_group :: string where
  "default_group = ''Tin h'' @ [CHR 0xE1, CHR 0xBB, CHR 0x8D, CHR ''c'']"

section \<open>GroupResolver: \<open>_infer_req_group\<close>\<close>

definition group_of_lab_ref :: "db \<Rightarrow> int option \<Rightarrow> string option" where
  "group_of_lab_ref s x =
     (case x of
        None \<Rightarrow> None
      | Some i \<Rightarrow>
          if i = 0 then None
          else (case get_lab s i of
                  None \<Rightarrow> None
                | Some l \<Rightarrow> if l_subject_group l \<noteq> [] then Some (l_subject_group l) else None))"

definition infer_req_group :: "db \<Rightarrow> lab_request \<Rightarrow> string" where
  "infer_req_group s req =
     (if q_lab_group req \<noteq> [] then q_lab_group req
      else case group_of_lab_ref s (q_preferred_lab_id req) of
             Some g \<Rightarrow> g
           | None \<Rightarrow>
               (case teacher_of s req of
                  None \<Rightarrow> default_group
                | Some t \<Rightarrow>
                    (case group_of_lab_ref s (u_preferred_lab_id t) of
                       Some g \<Rightarrow> g
                     | None \<Rightarrow> default_group)))"

section \<open>Allocator: \<open>_assign_reservation_for_request\<close>\<close>

text \<open>\<open>Reservation.query.filter_by(request_id=i).first()\<close> is not None.\<close>

definition has_reservation :: "db \<Rightarrow> int \<Rightarrow> bool" where
  "has_reservation s i = (find (\<lambda>r. r_request_id r = i) (reservations s) \<noteq> None)"

text \<open>Writes through the ORM object of the request with primary key \<open>i\<close>.\<close>

definition set_lab_group :: "db \<Rightarrow> int \<Rightarrow> string \<Rightarrow> db" where
  "set_lab_group s i g =
     s\<lparr>requests := map (\<lambda>q. if q_id q = i then q\<lparr>q_lab_group := g\<rparr> else q) (requests s)\<rparr>"

definition set_status :: "db \<Rightarrow> int \<Rightarrow> string \<Rightarrow> db" where
  "set_status s i st =
     s\<lparr>requests := map (\<lambda>q. if q_id q = i then q\<lparr>q_status := st\<rparr> else q) (requests s)\<rparr>"

definition add_reservation :: "db \<Rightarrow> int \<Rightarrow> int \<Rightarrow> int \<Rightarrow> int \<Rightarrow> db" where
  "add_reservation s lid rid d p =
     s\<lparr>reservations := reservations s @
        [\<lparr>r_id = next_id (map r_id (reservations s)), r_lab_id = lid, r_request_id = rid,
          r_date = d, r_period = p\<rparr>]\<rparr>"

text \<open>
  \<open>Lab.query.filter_by(is_active=True, subject_group=g).order_by(Lab.name.asc()).all()\<close>
\<close>

definition active_labs :: "db \<Rightarrow> string \<Rightarrow> lab list" where
  "active_labs s g =
     sort_key l_name (filter (\<lambda>l. l_is_active l \<and> l_subject_group l = g) (labs s))"

text \<open>
  The ids of the join of Reservation with Lab, filtered on date, period and the lab's
  group.
\<close>

definition occupied_ids :: "db \<Rightarrow> int \<Rightarrow> int \<Rightarrow> string \<Rightarrow> int set" where
  "occupied_ids s d p g =
     set (concat (map (\<lambda>r. concat (map (\<lambda>l.
            if r_lab_id r = l_id l \<and> r_date r = d \<and> r_period r = p \<and> l_subject_group l = g
            then [r_lab_id r] else []) (labs s))) (reservations s)))"

text \<open>\<open>req.preferred_lab_id or (req.teacher.preferred_lab_id if req.teacher else None)\<close>\<close>

definition pref_lab_id_of :: "db \<Rightarrow> lab_request \<Rightarrow> int option" where
  "pref_lab_id_of s req =
     (if truthy (q_preferred_lab_id req) then q_preferred_lab_id req
      else case teacher_of s req of None \<Rightarrow> None | Some t \<Rightarrow> u_preferred_lab_id t)"

text \<open>The preference pass: the preferred lab if it is active, in the group and free.\<close>

definition preferred_choice :: "db \<Rightarrow> lab_request \<Rightarrow> string \<Rightarrow> int set \<Rightarrow> lab option" where
  "preferred_choice s req g occ =
     (case pref_lab_id_of s req of
        None \<Rightarrow> None
      | Some i \<Rightarrow>
          if i = 0 then None
          else (case get_lab s i of
                  None \<Rightarrow> None
                | Some l \<Rightarrow>
                    if l_is_active l \<and> l_subject_group l = g \<and> l_id l \<notin> occ
                    then Some l else None))"

definition choose_lab :: "db \<Rightarrow> lab_request \<Rightarrow> string \<Rightarrow> lab list \<Rightarrow> int set \<Rightarrow> lab option" where
  "choose_lab s req g actives occ =
     (case preferred_choice s req g occ of
        Some l \<Rightarrow> Some l
      | None \<Rightarrow> find (\<lambda>l. l_id l \<notin> occ) actives)"

definition assign_reservation_for_request :: "db \<Rightarrow> lab_request \<Rightarrow> bool \<times> db" where
  "assign_reservation_for_request s req =
     (if has_reservation s (q_id req) then (True, s)
      else
        let req_group = infer_req_group s req;
            s1 = set_lab_group s (q_id req) req_group;
            actives = active_labs s1 req_group
        in if actives = [] then (False, s1)
           else
             let occ = occupied_ids s1 (q_date req) (q_period req) req_group
             in case choose_lab s1 req req_group actives occ of
                  None \<Rightarrow> (False, s1)
                | Some l \<Rightarrow>
                    (True, set_status
                             (add_reservation s1 (l_id l) (q_id req) (q_date req) (q_period req))
                             (q_id req) ''scheduled''))"

section \<open>Batch scheduling: \<open>run_auto_schedule\<close>\<close>

text \<open>
  The sort key of the batch: \<open>(0 if (r.preferred_lab_id or (r.teacher and
  r.teacher.preferred_lab_id)) else 1, r.created_at)\<close>, compared as Python compares
  tuples. \<open>list.sort\<close> is stable, as \<open>sort_key\<close> is.
\<close>

definition has_pref_signal :: "db \<Rightarrow> lab_request \<Rightarrow> bool" where
  "has_pref_signal s r =
     (truthy (q_preferred_lab_id r) \<or>
      (case teacher_of s r of None \<Rightarrow> False | Some t \<Rightarrow> truthy (u_preferred_lab_id t)))"

definition batch_key :: "db \<Rightarrow> lab_request \<Rightarrow> nat \<times> int" where
  "batch_key s r = (if has_pref_signal s r then 0 else 1, q_created_at r)"

definition unscheduled :: "db \<Rightarrow> lab_request list" where
  "unscheduled s =
     sort_key (batch_key s)
       (filter (\<lambda>r. q_status r \<in> set [''pending'', ''approved'']) (requests s))"

text \<open>
  The loop body. Each request of the list is the row as loaded by the query; an
  iteration writes only to the row of its own request.
\<close>

fun auto_loop :: "lab_request list \<Rightarrow> db \<Rightarrow> db" where
  "auto_loop [] s = s"
| "auto_loop (req # rest) s =
     (if has_reservation s (q_id req) then auto_loop rest s
      else
        case assign_reservation_for_request s req of
          (ok, s1) \<Rightarrow>
            auto_loop rest (if \<not> ok then set_status s1 (q_id req) ''conflict'' else s1))"

text \<open>The function has no \<open>return\<close> statement: its value is None, here \<open>()\<close>.\<close>

definition run_auto_schedule :: "db \<Rightarrow> unit \<times> db" where
  "run_auto_schedule s = ((), auto_loop (unscheduled s) s)"

text \<open>
  The requests on which the loop calls \<open>_assign_reservation_for_request\<close>, in the order
  of the calls.
\<close>

fun attempts :: "lab_request list \<Rightarrow> db \<Rightarrow> lab_request list" where
  "attempts [] s = []"
| "attempts (req # rest) s =
     (if has_reservation s (q_id req) then attempts rest s
      else
        case assign_reservation_for_request s req of
          (ok, s1) \<Rightarrow>
            req # attempts rest (if \<not> ok then set_status s1 (q_id req) ''conflict'' else s1))"

section \<open>Administrative routes: \<open>update_request_status\<close>, \<open>manual_assign\<close>\<close>

text \<open>Every flash message of the routes modelled here is one error value.\<close>

datatype error =
    NotFound | InvalidStatus | NoEligibleResource
  | MissingLabId | InvalidLabId | ResourceInactive | GroupMismatch | SlotTaken
  | NotTeacher | MissingFields | InvalidPeriod | InvalidWeek | WeekInactive
  | MissingWeekday | InvalidWeekday | WeekdayOutOfRange | DateOutsideWeek
  | MissingDate | InvalidDate | InvalidPreferredLab | DuplicateRequest
  | OverflowError

text \<open>\<open>if lab_request.reservation: db.session.delete(lab_request.reservation)\<close>\<close>

definition delete_reservation_of :: "db \<Rightarrow> int \<Rightarrow> db" where
  "delete_reservation_of s i =
     (case find (\<lambda>r. r_request_id r = i) (reservations s) of
        None \<Rightarrow> s
      | Some r \<Rightarrow> s\<lparr>reservations := remove1 r (reservations s)\<rparr>)"

text \<open>\<open>new_status\<close> is the form field after \<open>(request.form.get("status") or "").strip()\<close>.\<close>

definition update_request_status :: "db \<Rightarrow> int \<Rightarrow> string \<Rightarrow> (error + unit) \<times> db" where
  "update_request_status s req_id new_status =
     (case get_request s req_id of
        None \<Rightarrow> (Inl NotFound, s)
      | Some lab_request \<Rightarrow>
          if new_status \<notin> set [''pending'', ''approved'', ''scheduled'', ''conflict'']
          then (Inl InvalidStatus, s)
          else if new_status = ''scheduled'' then
            (case assign_reservation_for_request s lab_request of
               (ok, s1) \<Rightarrow>
                 if \<not> ok then (Inl NoEligibleResource, set_status s1 (q_id lab_request) ''conflict'')
                 else (Inr (), s1))
          else
            (Inr (), set_status (delete_reservation_of s (q_id lab_request))
                       (q_id lab_request) new_status))"

text \<open>
  \<open>lab_id_str\<close> is the form field after \<open>(request.form.get("lab_id") or "").strip()\<close>;
  \<open>int_of\<close> is Python's \<open>int\<close> on strings, None where it raises ValueError.
\<close>

definition slot_taken :: "db \<Rightarrow> int \<Rightarrow> int \<Rightarrow> int \<Rightarrow> bool" where
  "slot_taken s lid d p =
     (find (\<lambda>r. r_lab_id r = lid \<and> r_date r = d \<and> r_period r = p) (reservations s) \<noteq> None)"

definition manual_assign ::
  "(string \<Rightarrow> int option) \<Rightarrow> db \<Rightarrow> int \<Rightarrow> string \<Rightarrow> (error + unit) \<times> db" where
  "manual_assign int_of s req_id lab_id_str =
     (case get_request s req_id of
        None \<Rightarrow> (Inl NotFound, s)
      | Some lab_request \<Rightarrow>
          if lab_id_str = [] then (Inl MissingLabId, s)
          else (case int_of lab_id_str of
                  None \<Rightarrow> (Inl InvalidLabId, s)
                | Some lab_id \<Rightarrow>
                    (case get_lab s lab_id of
                       None \<Rightarrow> (Inl ResourceInactive, s)
                     | Some lab \<Rightarrow>
                         if \<not> l_is_active lab then (Inl ResourceInactive, s)
                         else if l_subject_group lab \<noteq> infer_req_group s lab_request
                         then (Inl GroupMismatch, s)
                         else if slot_taken s (l_id lab) (q_date lab_request) (q_period lab_request)
                         then (Inl SlotTaken, s)
                         else
                           (Inr (),
                            set_status
                              (add_reservation (delete_reservation_of s (q_id lab_request))
                                 (l_id lab) (q_id lab_request)
                                 (q_date lab_request) (q_period lab_request))
                              (q_id lab_request) ''scheduled''))))"

section \<open>ConflictAdvisor: \<open>ai_explain_conflict_and_suggest\<close>\<close>

record occupant =
  oc_lab_name :: string
  oc_teacher_name :: string
  oc_class_name :: string

record suggestion =
  sg_date :: int
  sg_period :: int
  sg_free_lab_names :: "string list"

record diagnosis =
  dg_lab_group :: string
  dg_occupied :: "occupant list"
  dg_suggestions :: "suggestion list"

definition get_occupied_details :: "db \<Rightarrow> int \<Rightarrow> int \<Rightarrow> string \<Rightarrow> occupant list" where
  "get_occupied_details s d p g =
     concat (map (\<lambda>r. concat (map (\<lambda>l. concat (map (\<lambda>q. concat (map (\<lambda>u.
        if r_lab_id r = l_id l \<and> r_request_id r = q_id q \<and> q_teacher_id q = u_id u \<and>
           r_date r = d \<and> r_period r = p \<and> l_subject_group l = g
        then [\<lparr>oc_lab_name = l_name l, oc_teacher_name = u_full_name u,
               oc_class_name = q_class_name q\<rparr>]
        else []) (users s))) (requests s))) (labs s))) (reservations s))"

text \<open>\<open>free_labs = [lab for lab in active_labs if lab.id not in occupied_ids]\<close>\<close>

definition free_labs :: "db \<Rightarrow> string \<Rightarrow> lab list \<Rightarrow> int \<Rightarrow> int \<Rightarrow> lab list" where
  "free_labs s g actives d p = filter (\<lambda>l. l_id l \<notin> occupied_ids s d p g) actives"

definition mk_suggestion :: "int \<Rightarrow> int \<Rightarrow> lab list \<Rightarrow> suggestion" where
  "mk_suggestion d p free =
     \<lparr>sg_date = d, sg_period = p, sg_free_lab_names = take 3 (map l_name free)\<rparr>"

text \<open>
  \<open>date + timedelta(days=k)\<close>: Python raises OverflowError when the result is not a
  date, that is outside \<open>date.min\<close> .. \<open>date.max\<close>. (A \<open>timedelta\<close> of more than 999999999
  days raises the same error; added to a date it would leave the range anyway.)
\<close>

definition date_min :: int where
  "date_min = 1"

definition date_max :: int where
  "date_max = 3652059"

definition date_add :: "int \<Rightarrow> int \<Rightarrow> error + int" where
  "date_add d k =
     (if date_min \<le> d + k \<and> d + k \<le> date_max then Inr (d + k) else Inl OverflowError)"

text \<open>
  The three nested loops. Each returns the suggestions collected so far; the loop
  around it tests \<open>len(suggestions) >= top_k\<close> again, as the source does. The date of a
  candidate is computed at the head of the middle loop, where the search stops with
  OverflowError if it is not a date.
\<close>

fun scan_periods ::
  "db \<Rightarrow> lab_request \<Rightarrow> string \<Rightarrow> lab list \<Rightarrow> int \<Rightarrow> int \<Rightarrow> int list \<Rightarrow>
   suggestion list \<Rightarrow> suggestion list" where
  "scan_periods s req g actives top_k d [] acc = acc"
| "scan_periods s req g actives top_k d (p # ps) acc =
     (if d = q_date req \<and> p = q_period req then scan_periods s req g actives top_k d ps acc
      else
        let free = free_labs s g actives d p;
            acc1 = (if free \<noteq> [] then acc @ [mk_suggestion d p free] else acc)
        in if int (length acc1) \<ge> top_k then acc1
           else scan_periods s req g actives top_k d ps acc1)"

fun scan_signs ::
  "db \<Rightarrow> lab_request \<Rightarrow> string \<Rightarrow> lab list \<Rightarrow> int \<Rightarrow> int \<Rightarrow> int \<Rightarrow> int list \<Rightarrow>
   suggestion list \<Rightarrow> error + suggestion list" where
  "scan_signs s req g actives top_k max_period delta_days [] acc = Inr acc"
| "scan_signs s req g actives top_k max_period delta_days (sign # signs) acc =
     (case date_add (q_date req) (sign * delta_days) of
        Inl e \<Rightarrow> Inl e
      | Inr d \<Rightarrow>
          let acc1 = scan_periods s req g actives top_k d [1..max_period] acc
          in if int (length acc1) \<ge> top_k then Inr acc1
             else scan_signs s req g actives top_k max_period delta_days signs acc1)"

fun scan_days ::
  "db \<Rightarrow> lab_request \<Rightarrow> string \<Rightarrow> lab list \<Rightarrow> int \<Rightarrow> int \<Rightarrow> int list \<Rightarrow>
   suggestion list \<Rightarrow> error + suggestion list" where
  "scan_days s req g actives top_k max_period [] acc = Inr acc"
| "scan_days s req g actives top_k max_period (delta_days # rest) acc =
     (case scan_signs s req g actives top_k max_period delta_days
             (if delta_days = 0 then [0] else [-1, 1]) acc of
        Inl e \<Rightarrow> Inl e
      | Inr acc1 \<Rightarrow>
          if int (length acc1) \<ge> top_k then Inr acc1
          else scan_days s req g actives top_k max_period rest acc1)"

text \<open>
  The result is \<open>Inl OverflowError\<close> when the search raises, \<open>Inr None\<close> for the answer
  \<open>{"ok": False}\<close> to an unknown request, and the diagnosis otherwise.
\<close>

definition ai_explain_conflict_and_suggest ::
  "db \<Rightarrow> int \<Rightarrow> int \<Rightarrow> int \<Rightarrow> int \<Rightarrow> error + diagnosis option" where
  "ai_explain_conflict_and_suggest s req_id max_period day_window top_k =
     (case get_request s req_id of
        None \<Rightarrow> Inr None
      | Some req \<Rightarrow>
          let subject_group = infer_req_group s req;
              actives = active_labs s subject_group;
              occupied_now = get_occupied_details s (q_date req) (q_period req) subject_group
          in case scan_days s req subject_group actives top_k max_period [0..day_window] [] of
               Inl e \<Rightarrow> Inl e
             | Inr suggestions \<Rightarrow>
                 Inr (Some \<lparr>dg_lab_group = subject_group, dg_occupied = occupied_now,
                            dg_suggestions = suggestions\<rparr>))"

section \<open>Submission: \<open>new_request\<close>\<close>

text \<open>
  The form fields, each after \<open>(request.form.get(k) or "").strip()\<close>. \<open>int_of\<close> is
  Python's \<open>int\<close> on strings and \<open>date_of\<close> is \<open>datetime.strptime(_, "%Y-%m-%d").date()\<close>,
  None where they raise ValueError.
\<close>

record request_form =
  f_class_name :: string
  f_period :: string
  f_lab_group :: string
  f_preferred_lab_id :: string
  f_week_id :: string
  f_weekday :: string
  f_date :: string

datatype page = Request_form | Redirect_dashboard

definition week_date_from_weekday :: "week_schedule \<Rightarrow> int \<Rightarrow> int" where
  "week_date_from_weekday week weekday = w_start_date week + weekday"

text \<open>The date of the submission and its week, from the week branch or the date branch.\<close>

definition resolve_date ::
  "(string \<Rightarrow> int option) \<Rightarrow> (string \<Rightarrow> int option) \<Rightarrow> db \<Rightarrow> request_form \<Rightarrow>
   error + (int \<times> week_schedule option)" where
  "resolve_date int_of date_of s form =
     (if f_week_id form \<noteq> [] then
        (case int_of (f_week_id form) of
           None \<Rightarrow> Inl InvalidWeek
         | Some week_id \<Rightarrow>
             (case get_week s week_id of
                None \<Rightarrow> Inl WeekInactive
              | Some week_obj \<Rightarrow>
                  if \<not> w_is_active week_obj then Inl WeekInactive
                  else if f_weekday form = [] then Inl MissingWeekday
                  else (case int_of (f_weekday form) of
                          None \<Rightarrow> Inl InvalidWeekday
                        | Some weekday \<Rightarrow>
                            if weekday < 0 \<or> weekday > 6 then Inl WeekdayOutOfRange
                            else
                              let date_obj = week_date_from_weekday week_obj weekday
                              in if date_obj < w_start_date week_obj \<or> date_obj > w_end_date week_obj
                                 then Inl DateOutsideWeek
                                 else Inr (date_obj, Some week_obj))))
      else if f_date form = [] then Inl MissingDate
      else (case date_of (f_date form) of
              None \<Rightarrow> Inl InvalidDate
            | Some date_obj \<Rightarrow> Inr (date_obj, None)))"

text \<open>The preferred lab of the submission and the group it forces.\<close>

definition resolve_preferred ::
  "(string \<Rightarrow> int option) \<Rightarrow> db \<Rightarrow> request_form \<Rightarrow> string \<Rightarrow> error + (int option \<times> string)" where
  "resolve_preferred int_of s form lab_group =
     (let preferred_lab_id =
            (if f_preferred_lab_id form \<noteq> [] then int_of (f_preferred_lab_id form) else None)
      in if truthy preferred_lab_id then
           (case get_lab s (case preferred_lab_id of Some i \<Rightarrow> i | None \<Rightarrow> 0) of
              None \<Rightarrow> Inl InvalidPreferredLab
            | Some lab \<Rightarrow>
                if \<not> l_is_active lab then Inl InvalidPreferredLab
                else Inr (preferred_lab_id, l_subject_group lab))
         else Inr (preferred_lab_id, lab_group))"

text \<open>
  \<open>LabRequest.query.filter_by(teacher_id=uid, date=d, period=p)
  .filter(LabRequest.status.in_(["pending", "approved", "scheduled"])).first()\<close>
\<close>

definition existed_same :: "db \<Rightarrow> int \<Rightarrow> int \<Rightarrow> int \<Rightarrow> lab_request option" where
  "existed_same s uid d p =
     find (\<lambda>q. q_teacher_id q = uid \<and> q_date q = d \<and> q_period q = p \<and>
               q_status q \<in> set [''pending'', ''approved'', ''scheduled'']) (requests s)"

definition add_request :: "db \<Rightarrow> lab_request \<Rightarrow> db" where
  "add_request s q = s\<lparr>requests := requests s @ [q\<lparr>q_id := next_id (map q_id (requests s))\<rparr>]\<rparr>"

definition new_request ::
  "(string \<Rightarrow> int option) \<Rightarrow> (string \<Rightarrow> int option) \<Rightarrow> db \<Rightarrow> user \<Rightarrow> string \<Rightarrow>
   request_form \<Rightarrow> int \<Rightarrow> (error + page) \<times> db" where
  "new_request int_of date_of s current_user method form now =
     (if u_role current_user \<noteq> ''teacher'' then (Inl NotTeacher, s)
      else if method \<noteq> ''POST'' then (Inr Request_form, s)
      else if f_class_name form = [] \<or> f_period form = [] then (Inl MissingFields, s)
      else
        (case int_of (f_period form) of
           None \<Rightarrow> (Inl InvalidPeriod, s)
         | Some period \<Rightarrow>
             (case resolve_date int_of date_of s form of
                Inl e \<Rightarrow> (Inl e, s)
              | Inr (date_obj, week_obj) \<Rightarrow>
                  (case resolve_preferred int_of s form
                          (if f_lab_group form \<noteq> [] then f_lab_group form else default_group) of
                     Inl e \<Rightarrow> (Inl e, s)
                   | Inr (preferred_lab_id, lab_group) \<Rightarrow>
                       (case existed_same s (u_id current_user) date_obj period of
                          Some q \<Rightarrow> (Inl DuplicateRequest, s)
                        | None \<Rightarrow>
                            (Inr Redirect_dashboard,
                             add_request s
                               \<lparr>q_id = 0, q_teacher_id = u_id current_user,
                                q_class_name = f_class_name form, q_num_students = 0,
                                q_lab_group = lab_group,
                                q_week_id = map_option w_id week_obj,
                                q_date = date_obj, q_period = period,
                                q_status = ''pending'',
                                q_preferred_lab_id = preferred_lab_id,
                                q_created_at = now\<rparr>))))))"

section \<open>Invariants and auxiliary notions\<close>

text \<open>The reservations that reference request \<open>i\<close>.\<close>

definition reservations_of :: "db \<Rightarrow> int \<Rightarrow> reservation list" where
  "reservations_of s i = filter (\<lambda>r. r_request_id r = i) (reservations s)"

text \<open>
  The lab the allocator settles on (steps 3 to 8 of the assignment), and the state it
  commits with it (step 9).
\<close>

definition pick :: "db \<Rightarrow> lab_request \<Rightarrow> lab option" where
  "pick s req =
     (let g = infer_req_group s req; actives = active_labs s g
      in if actives = [] then None
         else choose_lab s req g actives (occupied_ids s (q_date req) (q_period req) g))"

definition commit :: "db \<Rightarrow> lab_request \<Rightarrow> lab \<Rightarrow> db" where
  "commit s req l =
     set_status
       (add_reservation (set_lab_group s (q_id req) (infer_req_group s req))
          (l_id l) (q_id req) (q_date req) (q_period req))
       (q_id req) ''scheduled''"

text \<open>
  Slot uniqueness: no two reservations share (lab, date, period). The 1:1 binding: a
  request has one reservation when its status is "scheduled" and none otherwise.
\<close>

definition slot_of :: "reservation \<Rightarrow> int \<times> int \<times> int" where
  "slot_of r = (r_lab_id r, r_date r, r_period r)"

definition slot_unique :: "db \<Rightarrow> bool" where
  "slot_unique s = distinct (map slot_of (reservations s))"

definition binding_ok :: "db \<Rightarrow> bool" where
  "binding_ok s =
     (\<forall>q \<in> set (requests s).
        length (reservations_of s (q_id q)) = (if q_status q = ''scheduled'' then 1 else 0))"

section \<open>Example data\<close>

definition ex_labs :: "lab list" where
  "ex_labs =
     [\<lparr>l_id = 1, l_name = ''Lab A'', l_subject_group = ''Science'', l_capacity = 40,
       l_is_active = True\<rparr>,
      \<lparr>l_id = 2, l_name = ''Lab B'', l_subject_group = ''Science'', l_capacity = 40,
       l_is_active = True\<rparr>,
      \<lparr>l_id = 3, l_name = ''Studio'', l_subject_group = ''Art'', l_capacity = 30,
       l_is_active = True\<rparr>,
      \<lparr>l_id = 4, l_name = ''Old studio'', l_subject_group = ''Art'', l_capacity = 30,
       l_is_active = False\<rparr>]"

definition ex_users :: "user list" where
  "ex_users =
     [\<lparr>u_id = 10, u_full_name = ''An'', u_role = ''teacher'', u_preferred_lab_id = None\<rparr>,
      \<lparr>u_id = 11, u_full_name = ''Binh'', u_role = ''teacher'', u_preferred_lab_id = None\<rparr>]"

definition ex_req0 :: lab_request where
  "ex_req0 =
     \<lparr>q_id = 7, q_teacher_id = 11, q_class_name = ''12C'', q_num_students = 0,
      q_lab_group = ''Science'', q_week_id = None, q_date = 100, q_period = 3,
      q_status = ''scheduled'', q_preferred_lab_id = None, q_created_at = 0\<rparr>"

definition ex_req1 :: lab_request where
  "ex_req1 =
     \<lparr>q_id = 1, q_teacher_id = 10, q_class_name = ''10A'', q_num_students = 0,
      q_lab_group = ''Science'', q_week_id = None, q_date = 100, q_period = 3,
      q_status = ''pending'', q_preferred_lab_id = None, q_created_at = 1\<rparr>"

definition ex_req2 :: lab_request where
  "ex_req2 =
     \<lparr>q_id = 2, q_teacher_id = 11, q_class_name = ''11B'', q_num_students = 0,
      q_lab_group = ''Science'', q_week_id = None, q_date = 100, q_period = 3,
      q_status = ''pending'', q_preferred_lab_id = Some 2, q_created_at = 2\<rparr>"

text \<open>Lab A is taken at (100, 3) by request 7; requests 1 and 2 want the same slot.\<close>

definition ex_db :: db where
  "ex_db =
     \<lparr>labs = ex_labs, users = ex_users, weeks = [],
      requests = [ex_req0, ex_req1, ex_req2],
      reservations =
        [\<lparr>r_id = 1, r_lab_id = 1, r_request_id = 7, r_date = 100, r_period = 3\<rparr>]\<rparr>"

text \<open>The same store once request 2 holds Lab B: no Science lab is left at (100, 3).\<close>

definition ex_db_full :: db where
  "ex_db_full =
     \<lparr>labs = ex_labs, users = ex_users, weeks = [],
      requests = [ex_req0, ex_req1, ex_req2\<lparr>q_status := ''scheduled''\<rparr>],
      reservations =
        [\<lparr>r_id = 1, r_lab_id = 1, r_request_id = 7, r_date = 100, r_period = 3\<rparr>,
         \<lparr>r_id = 2, r_lab_id = 2, r_request_id = 2, r_date = 100, r_period = 3\<rparr>]\<rparr>"

definition ex_int_of :: "string \<Rightarrow> int option" where
  "ex_int_of = map_of [(''1'', 1), (''2'', 2), (''3'', 3), (''4'', 4)]"

text \<open>The requests a batch run attempts to assign, in the order of the attempts.\<close>

definition batch_attempts :: "db \<Rightarrow> lab_request list" where
  "batch_attempts s = attempts (unscheduled s) s"

definition ex_date_of :: "string \<Rightarrow> int option" where
  "ex_date_of = map_of [(''2025-04-10'', 100)]"

definition ex_form :: request_form where
  "ex_form =
     \<lparr>f_class_name = ''10A'', f_period = ''3'', f_lab_group = ''Science'',
      f_preferred_lab_id = [], f_week_id = [], f_weekday = [], f_date = ''2025-04-10''\<rparr>"

text \<open>
  One attempt of the batch loop: the call of \<open>_assign_reservation_for_request\<close> and the
  write of "conflict" when it fails.
\<close>

definition attempt :: "db \<Rightarrow> lab_request \<Rightarrow> db" where
  "attempt s req =
     (case assign_reservation_for_request s req of
        (ok, s1) \<Rightarrow> if \<not> ok then set_status s1 (q_id req) ''conflict'' else s1)"

text \<open>One iteration of the batch loop.\<close>

definition batch_step :: "db \<Rightarrow> lab_request \<Rightarrow> db" where
  "batch_step s req =
     (if has_reservation s (q_id req) then s
      else case assign_reservation_for_request s req of
             (ok, s1) \<Rightarrow> if \<not> ok then set_status s1 (q_id req) ''conflict'' else s1)"

text \<open>The number of requests with a given status.\<close>

definition count_status :: "string \<Rightarrow> db \<Rightarrow> nat" where
  "count_status st s = length (filter (\<lambda>q. q_status q = st) (requests s))"

text \<open>A pending request that already holds a reservation.\<close>

definition ex_db_held :: db where
  "ex_db_held =
     \<lparr>labs = ex_labs, users = ex_users, weeks = [], requests = [ex_req1],
      reservations =
        [\<lparr>r_id = 1, r_lab_id = 1, r_request_id = 1, r_date = 100, r_period = 3\<rparr>]\<rparr>"

text \<open>
  The requests with an id in \<open>I\<close> are settled: none of them is still "pending" or
  "approved" without a reservation.
\<close>

definition settled :: "db \<Rightarrow> int set \<Rightarrow> bool" where
  "settled s I =
     (\<forall>q \<in> set (requests s). q_id q \<in> I \<longrightarrow> q_status q \<in> set [''pending'', ''approved''] \<longrightarrow>
        has_reservation s (q_id q))"

text \<open>
  The suggestion search as the specification words it: the candidate dates in the order
  d0, d0-1, d0+1, d0-2, d0+2, ... out to the day window, on each date the periods
  1..max_period ascending without the request's own slot, a candidate qualifying when
  some active lab of the group has no reservation there, and the first top_k qualifying
  candidates as the result.
\<close>

definition candidate_dates :: "int \<Rightarrow> int \<Rightarrow> int list" where
  "candidate_dates d0 day_window =
     concat (map (\<lambda>k. if k = 0 then [d0] else [d0 - k, d0 + k]) [0..day_window])"

definition date_slots :: "lab_request \<Rightarrow> int \<Rightarrow> int \<Rightarrow> (int \<times> int) list" where
  "date_slots req max_period d =
     map (\<lambda>p. (d, p)) (filter (\<lambda>p. \<not> (d = q_date req \<and> p = q_period req)) [1..max_period])"

definition candidate_slots :: "lab_request \<Rightarrow> int \<Rightarrow> int \<Rightarrow> (int \<times> int) list" where
  "candidate_slots req max_period day_window =
     concat (map (date_slots req max_period) (candidate_dates (q_date req) day_window))"

definition qualifies :: "db \<Rightarrow> string \<Rightarrow> int \<times> int \<Rightarrow> bool" where
  "qualifies s g c =
     (\<exists>l \<in> set (labs s). l_is_active l \<and> l_subject_group l = g \<and>
                            \<not> slot_taken s (l_id l) (fst c) (snd c))"

definition spec_suggestions :: "db \<Rightarrow> lab_request \<Rightarrow> int \<Rightarrow> int \<Rightarrow> int \<Rightarrow> (int \<times> int) list" where
  "spec_suggestions s req max_period day_window top_k =
     take (nat top_k)
       (filter (qualifies s (infer_req_group s req)) (candidate_slots req max_period day_window))"

text \<open>
  What each of the three loops of the source would collect without the limit: on one
  date, on the dates of one distance, and on all dates.
\<close>

definition found_in ::
  "db \<Rightarrow> lab_request \<Rightarrow> string \<Rightarrow> lab list \<Rightarrow> int \<Rightarrow> int list \<Rightarrow> suggestion list" where
  "found_in s req g actives d ps =
     map (\<lambda>p. mk_suggestion d p (free_labs s g actives d p))
       (filter (\<lambda>p. \<not> (d = q_date req \<and> p = q_period req) \<and> free_labs s g actives d p \<noteq> []) ps)"

definition found_signs ::
  "db \<Rightarrow> lab_request \<Rightarrow> string \<Rightarrow> lab list \<Rightarrow> int \<Rightarrow> int \<Rightarrow> int list \<Rightarrow> suggestion list" where
  "found_signs s req g actives max_period delta_days signs =
     concat (map (\<lambda>sign. found_in s req g actives (q_date req + sign * delta_days)
                            [1..max_period]) signs)"

definition found_days ::
  "db \<Rightarrow> lab_request \<Rightarrow> string \<Rightarrow> lab list \<Rightarrow> int \<Rightarrow> int list \<Rightarrow> suggestion list" where
  "found_days s req g actives max_period deltas =
     concat (map (\<lambda>delta_days. found_signs s req g actives max_period delta_days
                                 (if delta_days = 0 then [0] else [-1, 1])) deltas)"

text \<open>
  Scenario 3 of the specification: one active Art lab (Studio), taken on every slot of
  the window 98..102, periods 1 and 2, except (101, 2); request 3 wants (100, 1).
\<close>

definition ex_req3 :: lab_request where
  "ex_req3 =
     \<lparr>q_id = 3, q_teacher_id = 10, q_class_name = ''10A'', q_num_students = 0,
      q_lab_group = ''Art'', q_week_id = None, q_date = 100, q_period = 1,
      q_status = ''conflict'', q_preferred_lab_id = None, q_created_at = 3\<rparr>"

definition ex_req4 :: lab_request where
  "ex_req4 =
     \<lparr>q_id = 4, q_teacher_id = 11, q_class_name = ''12C'', q_num_students = 0,
      q_lab_group = ''Art'', q_week_id = None, q_date = 100, q_period = 1,
      q_status = ''scheduled'', q_preferred_lab_id = None, q_created_at = 2\<rparr>"

definition ex_db_scen :: db where
  "ex_db_scen =
     \<lparr>labs = ex_labs, users = ex_users, weeks = [], requests = [ex_req4, ex_req3],
      reservations =
        [\<lparr>r_id = 1, r_lab_id = 3, r_request_id = 4, r_date = 100, r_period = 1\<rparr>,
         \<lparr>r_id = 2, r_lab_id = 3, r_request_id = 21, r_date = 100, r_period = 2\<rparr>,
         \<lparr>r_id = 3, r_lab_id = 3, r_request_id = 22, r_date = 99, r_period = 1\<rparr>,
         \<lparr>r_id = 4, r_lab_id = 3, r_request_id = 23, r_date = 99, r_period = 2\<rparr>,
         \<lparr>r_id = 5, r_lab_id = 3, r_request_id = 24, r_date = 101, r_period = 1\<rparr>,
         \<lparr>r_id = 6, r_lab_id = 3, r_request_id = 25, r_date = 98, r_period = 1\<rparr>,
         \<lparr>r_id = 7, r_lab_id = 3, r_request_id = 26, r_date = 98, r_period = 2\<rparr>,
         \<lparr>r_id = 8, r_lab_id = 3, r_request_id = 27, r_date = 102, r_period = 1\<rparr>,
         \<lparr>r_id = 9, r_lab_id = 3, r_request_id = 28, r_date = 102, r_period = 2\<rparr>]\<rparr>"

text \<open>A request on the first day of the calendar, 0001-01-01.\<close>

definition ex_req5 :: lab_request where
  "ex_req5 =
     \<lparr>q_id = 5, q_teacher_id = 10, q_class_name = ''10A'', q_num_students = 0,
      q_lab_group = ''Science'', q_week_id = None, q_date = 1, q_period = 1,
      q_status = ''conflict'', q_preferred_lab_id = None, q_created_at = 5\<rparr>"

definition ex_db_min :: db where
  "ex_db_min =
     \<lparr>labs = ex_labs, users = ex_users, weeks = [], requests = [ex_req5],
      reservations = []\<rparr>"

section \<open>Basic facts about the store operations\<close>

lemmas ex_defs = ex_db_def ex_db_full_def ex_labs_def ex_users_def ex_req0_def ex_req1_def
  ex_req2_def ex_int_of_def

lemmas model_defs = assign_reservation_for_request_def has_reservation_def infer_req_group_def
  set_lab_group_def set_status_def add_reservation_def active_labs_def occupied_ids_def
  choose_lab_def preferred_choice_def pref_lab_id_of_def teacher_of_def get_lab_def
  truthy_def next_id_def group_of_lab_ref_def

lemma set_lab_group_fields [simp]:
  "labs (set_lab_group s i g) = labs s"
  "users (set_lab_group s i g) = users s"
  "weeks (set_lab_group s i g) = weeks s"
  "reservations (set_lab_group s i g) = reservations s"
  by (simp_all add: set_lab_group_def)

lemma set_status_fields [simp]:
  "labs (set_status s i st) = labs s"
  "users (set_status s i st) = users s"
  "weeks (set_status s i st) = weeks s"
  "reservations (set_status s i st) = reservations s"
  by (simp_all add: set_status_def)

lemma add_reservation_fields [simp]:
  "labs (add_reservation s l i d p) = labs s"
  "users (add_reservation s l i d p) = users s"
  "weeks (add_reservation s l i d p) = weeks s"
  "requests (add_reservation s l i d p) = requests s"
  by (simp_all add: add_reservation_def)

lemma has_reservation_iff:
  "has_reservation s i \<longleftrightarrow> (\<exists>r \<in> set (reservations s). r_request_id r = i)"
  by (auto simp: has_reservation_def find_None_iff)

lemma has_reservation_length:
  "has_reservation s i \<longleftrightarrow> 0 < length (reservations_of s i)"
  by (auto simp: has_reservation_iff reservations_of_def filter_empty_conv)

lemma slot_taken_iff:
  "slot_taken s lid d p \<longleftrightarrow>
     (\<exists>r \<in> set (reservations s). r_lab_id r = lid \<and> r_date r = d \<and> r_period r = p)"
  by (auto simp: slot_taken_def find_None_iff)

lemma in_join:
  "x \<in> set (concat (map (\<lambda>a. concat (map (\<lambda>b. if P a b then [f a b] else []) ys)) xs)) \<longleftrightarrow>
     (\<exists>a \<in> set xs. \<exists>b \<in> set ys. P a b \<and> x = f a b)"
  by (auto split: if_splits)

lemma occupied_ids_iff:
  "i \<in> occupied_ids s d p g \<longleftrightarrow>
     (\<exists>r \<in> set (reservations s). \<exists>l \<in> set (labs s).
         r_lab_id r = i \<and> l_id l = i \<and> r_date r = d \<and> r_period r = p \<and> l_subject_group l = g)"
  unfolding occupied_ids_def in_join by metis

lemma occupied_ids_in_group:
  "l \<in> set (labs s) \<Longrightarrow> l_subject_group l = g \<Longrightarrow>
     l_id l \<in> occupied_ids s d p g \<longleftrightarrow> slot_taken s (l_id l) d p"
  by (auto simp: occupied_ids_iff slot_taken_iff)

lemma set_active_labs:
  "set (active_labs s g) = {l \<in> set (labs s). l_is_active l \<and> l_subject_group l = g}"
  by (auto simp: active_labs_def)

lemma get_lab_Some: "get_lab s i = Some l \<Longrightarrow> l \<in> set (labs s) \<and> l_id l = i"
  by (auto simp: get_lab_def find_Some_iff)

lemma preferred_choice_Some:
  "preferred_choice s req g occ = Some l \<Longrightarrow>
     l \<in> set (labs s) \<and> l_is_active l \<and> l_subject_group l = g \<and> l_id l \<notin> occ"
  by (auto simp: preferred_choice_def split: option.splits if_splits dest: get_lab_Some)

lemma find_SomeD: "find P xs = Some x \<Longrightarrow> x \<in> set xs \<and> P x"
  by (auto simp: find_Some_iff)

lemma choose_lab_Some:
  "choose_lab s req g (active_labs s g) occ = Some l \<Longrightarrow>
     l \<in> set (labs s) \<and> l_is_active l \<and> l_subject_group l = g \<and> l_id l \<notin> occ"
  by (auto simp: choose_lab_def set_active_labs split: option.splits
           dest: preferred_choice_Some find_SomeD)

lemma choose_lab_None:
  "choose_lab s req g actives occ = None \<Longrightarrow> \<forall>l \<in> set actives. l_id l \<in> occ"
  by (auto simp: choose_lab_def find_None_iff split: option.splits)

lemma pick_Some:
  "pick s req = Some l \<Longrightarrow>
     l \<in> set (labs s) \<and> l_is_active l \<and> l_subject_group l = infer_req_group s req \<and>
     \<not> slot_taken s (l_id l) (q_date req) (q_period req)"
  by (auto simp: pick_def Let_def occupied_ids_in_group split: if_splits dest!: choose_lab_Some)

lemma pick_None:
  assumes "pick s req = None" "l \<in> set (labs s)" "l_is_active l"
    "l_subject_group l = infer_req_group s req"
  shows "slot_taken s (l_id l) (q_date req) (q_period req)"
proof -
  have mem: "l \<in> set (active_labs s (infer_req_group s req))"
    using assms by (simp add: set_active_labs)
  then have "active_labs s (infer_req_group s req) \<noteq> []" by auto
  with assms(1) have "choose_lab s req (infer_req_group s req) (active_labs s (infer_req_group s req))
       (occupied_ids s (q_date req) (q_period req) (infer_req_group s req)) = None"
    by (simp add: pick_def Let_def)
  from choose_lab_None [OF this] mem
  have "l_id l \<in> occupied_ids s (q_date req) (q_period req) (infer_req_group s req)" by blast
  then show ?thesis using assms by (simp add: occupied_ids_in_group)
qed

lemma get_lab_set_lab_group [simp]: "get_lab (set_lab_group s i g) = get_lab s"
  by (simp add: get_lab_def fun_eq_iff)

lemma teacher_of_set_lab_group [simp]: "teacher_of (set_lab_group s i g) = teacher_of s"
  by (simp add: teacher_of_def fun_eq_iff)

lemma group_of_lab_ref_set_lab_group [simp]:
  "group_of_lab_ref (set_lab_group s i g) = group_of_lab_ref s"
  by (simp add: group_of_lab_ref_def fun_eq_iff cong: option.case_cong if_cong)

lemma pref_lab_id_of_set_lab_group [simp]:
  "pref_lab_id_of (set_lab_group s i g) = pref_lab_id_of s"
  by (simp add: pref_lab_id_of_def fun_eq_iff cong: option.case_cong)

lemma infer_req_group_set_lab_group [simp]:
  "infer_req_group (set_lab_group s i g) req = infer_req_group s req"
  by (simp add: infer_req_group_def cong: option.case_cong)

lemma active_labs_set_lab_group [simp]:
  "active_labs (set_lab_group s i g) g' = active_labs s g'"
  by (simp add: active_labs_def)

lemma occupied_ids_set_lab_group [simp]:
  "occupied_ids (set_lab_group s i g) d p g' = occupied_ids s d p g'"
  by (simp add: occupied_ids_def)

lemma choose_lab_set_lab_group [simp]:
  "choose_lab (set_lab_group s i g) req g' actives occ = choose_lab s req g' actives occ"
  by (simp add: choose_lab_def preferred_choice_def cong: option.case_cong if_cong)

lemma assign_eq:
  "assign_reservation_for_request s req =
     (if has_reservation s (q_id req) then (True, s)
      else case pick s req of
             None \<Rightarrow> (False, set_lab_group s (q_id req) (infer_req_group s req))
           | Some l \<Rightarrow> (True, commit s req l))"
  by (simp add: assign_reservation_for_request_def pick_def commit_def Let_def
           split: option.splits)

lemma reservations_commit:
  "reservations (commit s req l) = reservations s @
     [\<lparr>r_id = next_id (map r_id (reservations s)), r_lab_id = l_id l, r_request_id = q_id req,
       r_date = q_date req, r_period = q_period req\<rparr>]"
  by (simp add: commit_def add_reservation_def)

lemma requests_commit:
  "requests (commit s req l) =
     map (\<lambda>q. if q_id q = q_id req
              then q\<lparr>q_lab_group := infer_req_group s req, q_status := ''scheduled''\<rparr> else q)
       (requests s)"
  by (simp add: commit_def set_status_def set_lab_group_def add_reservation_def)

section \<open>Slot uniqueness\<close>

lemma slot_taken_slot_of:
  "slot_taken s lid d p \<longleftrightarrow> (lid, d, p) \<in> set (map slot_of (reservations s))"
  by (auto simp: slot_taken_iff slot_of_def image_iff)

lemma slot_unique_commit:
  assumes "slot_unique s" "\<not> slot_taken s (l_id l) (q_date req) (q_period req)"
  shows "slot_unique (commit s req l)"
  using assms by (simp add: slot_unique_def reservations_commit slot_taken_slot_of slot_of_def)

lemma slot_unique_set_lab_group [simp]: "slot_unique (set_lab_group s i g) = slot_unique s"
  by (simp add: slot_unique_def)

lemma slot_unique_set_status [simp]: "slot_unique (set_status s i st) = slot_unique s"
  by (simp add: slot_unique_def)

lemma slot_unique_assign:
  "slot_unique s \<Longrightarrow> slot_unique (snd (assign_reservation_for_request s req))"
  by (auto simp: assign_eq split: option.splits dest!: pick_Some intro: slot_unique_commit)

lemma slot_unique_auto_loop: "slot_unique s \<Longrightarrow> slot_unique (auto_loop rs s)"
proof (induction rs arbitrary: s)
  case Nil
  then show ?case by simp
next
  case (Cons req rest)
  show ?case
  proof (cases "has_reservation s (q_id req)")
    case True
    with Cons show ?thesis by simp
  next
    case False
    obtain ok s1 where a: "assign_reservation_for_request s req = (ok, s1)" by force
    with slot_unique_assign [OF Cons.prems, of req] have "slot_unique s1" by simp
    then have "slot_unique (if \<not> ok then set_status s1 (q_id req) ''conflict'' else s1)" by simp
    from Cons.IH [OF this] False a show ?thesis by simp
  qed
qed

lemma reservations_delete_reservation_of:
  "set (reservations (delete_reservation_of s i)) \<subseteq> set (reservations s)"
  using set_remove1_subset by (fastforce simp: delete_reservation_of_def split: option.splits)

lemma slot_unique_delete: "slot_unique s \<Longrightarrow> slot_unique (delete_reservation_of s i)"
  by (auto simp: slot_unique_def delete_reservation_of_def distinct_map split: option.splits
           intro: inj_on_diff)

lemma slot_taken_delete:
  "slot_taken (delete_reservation_of s i) lid d p \<Longrightarrow> slot_taken s lid d p"
  using reservations_delete_reservation_of [of s i] by (auto simp: slot_taken_iff)

lemma slot_unique_add:
  "slot_unique s \<Longrightarrow> \<not> slot_taken s lid d p \<Longrightarrow> slot_unique (add_reservation s lid rid d p)"
  by (simp add: slot_unique_def add_reservation_def slot_taken_slot_of slot_of_def)

lemma slot_unique_manual_assign:
  "slot_unique s \<Longrightarrow> slot_unique (snd (manual_assign int_of s req_id lab_id_str))"
  by (auto simp: manual_assign_def split: option.splits
           intro!: slot_unique_add slot_unique_delete dest: slot_taken_delete)

text \<open>
  Claim C1. Slot uniqueness is an invariant of every operation that creates a
  reservation: from a store in which no two reservations share a (lab, date, period)
  triple, the store after \<open>_assign_reservation_for_request\<close>, after \<open>run_auto_schedule\<close>
  and after \<open>manual_assign\<close> still has no two reservations with the same triple.
\<close>

theorem slot_uniqueness_preserved:
  assumes "slot_unique s"
  shows "slot_unique (snd (assign_reservation_for_request s req)) \<and>
         slot_unique (snd (run_auto_schedule s)) \<and>
         slot_unique (snd (manual_assign int_of s req_id lab_id_str))"
  using assms
  by (simp add: slot_unique_assign slot_unique_auto_loop slot_unique_manual_assign
        run_auto_schedule_def)

theorem slot_uniqueness_preserved_witness:
  "slot_unique ex_db \<and>
   slot_unique (snd (assign_reservation_for_request ex_db ex_req1)) \<and>
   slot_unique (snd (run_auto_schedule ex_db)) \<and>
   slot_unique (snd (manual_assign ex_int_of ex_db 1 ''2''))"
proof -
  have h: "slot_unique ex_db" by (simp add: slot_unique_def slot_of_def ex_defs)
  from slot_uniqueness_preserved [OF h] h show ?thesis by blast
qed

section \<open>Single-request assignment\<close>

lemma assign_ex_db_req1:
  "assign_reservation_for_request ex_db ex_req1 =
     (True, ex_db\<lparr>requests := [ex_req0, ex_req1\<lparr>q_status := ''scheduled''\<rparr>, ex_req2],
                 reservations := reservations ex_db @
                   [\<lparr>r_id = 2, r_lab_id = 2, r_request_id = 1, r_date = 100, r_period = 3\<rparr>]\<rparr>)"
  by (simp add: model_defs ex_defs Let_def)

text \<open>
  Claim C7. Assignment is idempotent on a request that already has a reservation: the
  call returns success and the store is unchanged, so no second reservation appears.
  Hence, when a first call succeeds, a second call on the same request (the same
  primary key) succeeds as well and changes nothing, and a request that had at most one
  reservation before has exactly one after both calls.
\<close>

theorem assign_idempotent:
  "(has_reservation s (q_id req) \<longrightarrow> assign_reservation_for_request s req = (True, s)) \<and>
   (fst (assign_reservation_for_request s req) \<longrightarrow> q_id req' = q_id req \<longrightarrow>
      assign_reservation_for_request (snd (assign_reservation_for_request s req)) req' =
        (True, snd (assign_reservation_for_request s req)) \<and>
      (length (reservations_of s (q_id req)) \<le> 1 \<longrightarrow>
         length (reservations_of (snd (assign_reservation_for_request s req)) (q_id req)) = 1))"
proof (intro conjI impI)
  show "assign_reservation_for_request s req = (True, s)" if "has_reservation s (q_id req)"
    using that by (simp add: assign_eq)
next
  assume ok: "fst (assign_reservation_for_request s req)" and same: "q_id req' = q_id req"
  let ?s1 = "snd (assign_reservation_for_request s req)"
  have has1: "has_reservation ?s1 (q_id req)"
    using ok by (auto simp: assign_eq has_reservation_iff reservations_commit split: if_splits option.splits)
  then show "assign_reservation_for_request ?s1 req' = (True, ?s1)"
    using same by (simp add: assign_eq)
  show "length (reservations_of ?s1 (q_id req)) = 1" if le: "length (reservations_of s (q_id req)) \<le> 1"
  proof (cases "has_reservation s (q_id req)")
    case True
    then have "?s1 = s" by (simp add: assign_eq)
    moreover from True have "0 < length (reservations_of s (q_id req))"
      by (simp add: has_reservation_length)
    ultimately show ?thesis using le by arith
  next
    case False
    then have "length (reservations_of s (q_id req)) = 0"
      by (simp add: has_reservation_length)
    with ok False show ?thesis
      by (auto simp: assign_eq reservations_of_def reservations_commit split: option.splits)
  qed
qed

theorem assign_idempotent_witness:
  "has_reservation ex_db (q_id ex_req0) \<and>
   assign_reservation_for_request ex_db ex_req0 = (True, ex_db) \<and>
   fst (assign_reservation_for_request ex_db ex_req1) \<and>
   length (reservations_of ex_db (q_id ex_req1)) \<le> 1 \<and>
   assign_reservation_for_request (snd (assign_reservation_for_request ex_db ex_req1)) ex_req1 =
     (True, snd (assign_reservation_for_request ex_db ex_req1)) \<and>
   length (reservations_of (snd (assign_reservation_for_request ex_db ex_req1)) (q_id ex_req1)) = 1"
proof -
  have h0: "has_reservation ex_db (q_id ex_req0)"
    by (simp add: has_reservation_def ex_defs)
  have h1: "fst (assign_reservation_for_request ex_db ex_req1)"
    by (simp add: assign_ex_db_req1)
  have h2: "length (reservations_of ex_db (q_id ex_req1)) \<le> 1"
    by (simp add: reservations_of_def ex_defs)
  from assign_idempotent [of ex_db ex_req0 ex_req0] h0
  have a: "assign_reservation_for_request ex_db ex_req0 = (True, ex_db)" by blast
  from assign_idempotent [of ex_db ex_req1 ex_req1] h1 h2
  have b: "assign_reservation_for_request (snd (assign_reservation_for_request ex_db ex_req1)) ex_req1 =
             (True, snd (assign_reservation_for_request ex_db ex_req1)) \<and>
           length (reservations_of (snd (assign_reservation_for_request ex_db ex_req1)) (q_id ex_req1)) = 1"
    by blast
  from h0 h1 h2 a b show ?thesis by blast
qed

text \<open>
  Claim C9. For a request with no reservation, a failed assignment changes the store
  only by writing the resolved group to the request's \<open>lab_group\<close>: no reservation is
  created and no status changes (marking the request "conflict" is the caller's work).
  The failure means that every active lab of the resolved group is taken at the slot,
  which covers the case that the group has no active lab.
\<close>

theorem assign_failure_frame:
  assumes "\<not> has_reservation s (q_id req)" and "\<not> fst (assign_reservation_for_request s req)"
  shows "snd (assign_reservation_for_request s req) =
           set_lab_group s (q_id req) (infer_req_group s req) \<and>
         reservations (snd (assign_reservation_for_request s req)) = reservations s \<and>
         map q_status (requests (snd (assign_reservation_for_request s req))) =
           map q_status (requests s) \<and>
         (\<forall>l \<in> set (labs s). l_is_active l \<and> l_subject_group l = infer_req_group s req \<longrightarrow>
            slot_taken s (l_id l) (q_date req) (q_period req))"
proof -
  from assms have none: "pick s req = None"
    by (auto simp: assign_eq split: option.splits)
  with assms(1) have eq: "snd (assign_reservation_for_request s req) =
      set_lab_group s (q_id req) (infer_req_group s req)"
    by (simp add: assign_eq)
  have st: "map q_status (requests (set_lab_group s (q_id req) (infer_req_group s req))) =
      map q_status (requests s)"
    by (simp add: set_lab_group_def comp_def)
  show ?thesis using eq st pick_None [OF none] by auto
qed

theorem assign_failure_frame_witness:
  "\<not> has_reservation ex_db_full (q_id ex_req1) \<and>
   \<not> fst (assign_reservation_for_request ex_db_full ex_req1) \<and>
   snd (assign_reservation_for_request ex_db_full ex_req1) = ex_db_full"
proof -
  have h1: "\<not> has_reservation ex_db_full (q_id ex_req1)"
    by (simp add: has_reservation_def ex_defs)
  have h2: "\<not> fst (assign_reservation_for_request ex_db_full ex_req1)"
    by (simp add: model_defs ex_defs Let_def)
  have "set_lab_group ex_db_full (q_id ex_req1) (infer_req_group ex_db_full ex_req1) = ex_db_full"
    by (simp add: set_lab_group_def infer_req_group_def ex_defs)
  with assign_failure_frame [OF h1 h2] h1 h2 show ?thesis by simp
qed

lemma pick_preferred:
  assumes "pref_lab_id_of s req = Some i" and "i \<noteq> 0"
    and "get_lab s i = Some l"
    and "l_is_active l" and "l_subject_group l = infer_req_group s req"
    and "\<not> slot_taken s (l_id l) (q_date req) (q_period req)"
  shows "pick s req = Some l"
proof -
  let ?g = "infer_req_group s req"
  from get_lab_Some [OF assms(3)] have mem: "l \<in> set (labs s)" and lid: "l_id l = i" by auto
  with assms have "l \<in> set (active_labs s ?g)" by (simp add: set_active_labs)
  then have ne: "active_labs s ?g \<noteq> []" by auto
  have free: "l_id l \<notin> occupied_ids s (q_date req) (q_period req) ?g"
    using assms mem by (simp add: occupied_ids_in_group)
  have "preferred_choice s req ?g (occupied_ids s (q_date req) (q_period req) ?g) = Some l"
    using assms free by (simp add: preferred_choice_def)
  with ne show ?thesis by (simp add: pick_def choose_lab_def)
qed

text \<open>
  Claim C2. When the request names a preferred lab (its own \<open>preferred_lab_id\<close>, or its
  teacher's when its own is unset) that exists, is active, belongs to the resolved
  group and has no reservation at the request's date and period, the assignment of a
  request without a reservation succeeds and the reservation it creates is for exactly
  that lab.
\<close>

theorem preference_honored:
  assumes "\<not> has_reservation s (q_id req)"
    and "pref_lab_id_of s req = Some i" and "i \<noteq> 0"
    and "get_lab s i = Some l"
    and "l_is_active l" and "l_subject_group l = infer_req_group s req"
    and "\<not> slot_taken s i (q_date req) (q_period req)"
  shows "fst (assign_reservation_for_request s req) \<and>
         reservations (snd (assign_reservation_for_request s req)) =
           reservations s @
             [\<lparr>r_id = next_id (map r_id (reservations s)), r_lab_id = i,
               r_request_id = q_id req, r_date = q_date req, r_period = q_period req\<rparr>]"
proof -
  from get_lab_Some [OF assms(4)] have lid: "l_id l = i" by simp
  with assms have "pick s req = Some l" by (intro pick_preferred) auto
  with assms(1) lid show ?thesis by (simp add: assign_eq reservations_commit)
qed

theorem preference_honored_witness:
  "\<not> has_reservation ex_db (q_id ex_req2) \<and>
   pref_lab_id_of ex_db ex_req2 = Some 2 \<and>
   get_lab ex_db 2 = Some (ex_labs ! 1) \<and>
   l_is_active (ex_labs ! 1) \<and>
   l_subject_group (ex_labs ! 1) = infer_req_group ex_db ex_req2 \<and>
   \<not> slot_taken ex_db 2 (q_date ex_req2) (q_period ex_req2) \<and>
   fst (assign_reservation_for_request ex_db ex_req2) \<and>
   reservations (snd (assign_reservation_for_request ex_db ex_req2)) =
     [\<lparr>r_id = 1, r_lab_id = 1, r_request_id = 7, r_date = 100, r_period = 3\<rparr>,
      \<lparr>r_id = 2, r_lab_id = 2, r_request_id = 2, r_date = 100, r_period = 3\<rparr>]"
proof -
  have h1: "\<not> has_reservation ex_db (q_id ex_req2)"
    by (simp add: has_reservation_def ex_defs)
  have h2: "pref_lab_id_of ex_db ex_req2 = Some 2"
    by (simp add: pref_lab_id_of_def truthy_def ex_defs)
  have h3: "(2::int) \<noteq> 0" by simp
  have h4: "get_lab ex_db 2 = Some (ex_labs ! 1)"
    by (simp add: get_lab_def ex_defs)
  have h5: "l_is_active (ex_labs ! 1)" by (simp add: ex_defs)
  have h6: "l_subject_group (ex_labs ! 1) = infer_req_group ex_db ex_req2"
    by (simp add: infer_req_group_def ex_defs)
  have h7: "\<not> slot_taken ex_db 2 (q_date ex_req2) (q_period ex_req2)"
    by (simp add: slot_taken_def ex_defs)
  have n: "next_id (map r_id (reservations ex_db)) = 2"
    by (simp add: next_id_def ex_defs)
  from preference_honored [OF h1 h2 h3 h4 h5 h6 h7] h1 h2 h4 h5 h6 h7 n show ?thesis
    by (simp add: ex_defs)
qed

section \<open>The 1:1 binding of requests and reservations\<close>

lemma reservations_of_set_lab_group [simp]:
  "reservations_of (set_lab_group s i g) j = reservations_of s j"
  by (simp add: reservations_of_def)

lemma reservations_of_set_status [simp]:
  "reservations_of (set_status s i st) j = reservations_of s j"
  by (simp add: reservations_of_def)

lemma has_reservation_set_lab_group [simp]:
  "has_reservation (set_lab_group s i g) j = has_reservation s j"
  by (simp add: has_reservation_def)

lemma has_reservation_set_status [simp]:
  "has_reservation (set_status s i st) j = has_reservation s j"
  by (simp add: has_reservation_def)

lemma no_reservation_length:
  "\<not> has_reservation s i \<longleftrightarrow> length (reservations_of s i) = 0"
  by (simp add: has_reservation_length)

lemma binding_ok_alt:
  "binding_ok s \<longleftrightarrow>
     (\<forall>(i, st) \<in> set (map (\<lambda>q. (q_id q, q_status q)) (requests s)).
        length (reservations_of s i) = (if st = ''scheduled'' then 1 else 0))"
  by (auto simp: binding_ok_def)

lemma binding_ok_set_lab_group [simp]: "binding_ok (set_lab_group s i g) = binding_ok s"
proof -
  have "map (\<lambda>q. (q_id q, q_status q)) (requests (set_lab_group s i g)) =
        map (\<lambda>q. (q_id q, q_status q)) (requests s)"
    by (simp add: set_lab_group_def)
  then show ?thesis unfolding binding_ok_alt by simp
qed

lemma binding_ok_commit:
  assumes "binding_ok s" "\<not> has_reservation s (q_id req)"
  shows "binding_ok (commit s req l)"
  unfolding binding_ok_def
proof
  fix q' assume "q' \<in> set (requests (commit s req l))"
  then obtain q0 where q0: "q0 \<in> set (requests s)"
    and q': "q' = (if q_id q0 = q_id req
                  then q0\<lparr>q_lab_group := infer_req_group s req, q_status := ''scheduled''\<rparr> else q0)"
    unfolding requests_commit by auto
  from assms(1) q0 have ok0: "length (reservations_of s (q_id q0)) =
      (if q_status q0 = ''scheduled'' then 1 else 0)" by (simp add: binding_ok_def)
  from assms(2) have z: "length (reservations_of s (q_id req)) = 0"
    by (simp add: no_reservation_length)
  have len: "length (reservations_of (commit s req l) j) =
      length (reservations_of s j) + (if j = q_id req then 1 else 0)" for j
    by (simp add: reservations_of_def reservations_commit)
  show "length (reservations_of (commit s req l) (q_id q')) =
      (if q_status q' = ''scheduled'' then 1 else 0)"
  proof (cases "q_id q0 = q_id req")
    case True
    with q' z show ?thesis by (simp add: len)
  next
    case False
    with q' ok0 show ?thesis by (simp add: len)
  qed
qed

lemma binding_ok_set_status:
  assumes "binding_ok s" "\<not> has_reservation s i" "st \<noteq> ''scheduled''"
  shows "binding_ok (set_status s i st)"
  unfolding binding_ok_def
proof
  fix q' assume "q' \<in> set (requests (set_status s i st))"
  then obtain q0 where q0: "q0 \<in> set (requests s)"
    and q': "q' = (if q_id q0 = i then q0\<lparr>q_status := st\<rparr> else q0)"
    by (auto simp: set_status_def)
  from assms(1) q0 have ok0: "length (reservations_of s (q_id q0)) =
      (if q_status q0 = ''scheduled'' then 1 else 0)" by (simp add: binding_ok_def)
  from assms(2) have z: "length (reservations_of s i) = 0"
    by (simp add: no_reservation_length)
  show "length (reservations_of (set_status s i st) (q_id q')) =
      (if q_status q' = ''scheduled'' then 1 else 0)"
  proof (cases "q_id q0 = i")
    case True
    with q' z assms(3) show ?thesis by simp
  next
    case False
    with q' ok0 show ?thesis by simp
  qed
qed

lemma binding_ok_assign:
  "binding_ok s \<Longrightarrow> binding_ok (snd (assign_reservation_for_request s req))"
  by (auto simp: assign_eq binding_ok_commit split: option.splits)

lemma assign_failed_no_reservation:
  "assign_reservation_for_request s req = (False, s1) \<Longrightarrow> \<not> has_reservation s1 (q_id req)"
  by (auto simp: assign_eq split: if_splits option.splits)

lemma binding_ok_auto_loop: "binding_ok s \<Longrightarrow> binding_ok (auto_loop rs s)"
proof (induction rs arbitrary: s)
  case Nil
  then show ?case by simp
next
  case (Cons req rest)
  show ?case
  proof (cases "has_reservation s (q_id req)")
    case True
    with Cons show ?thesis by simp
  next
    case False
    obtain ok s1 where a: "assign_reservation_for_request s req = (ok, s1)" by force
    with binding_ok_assign [OF Cons.prems, of req] have b: "binding_ok s1" by simp
    have "binding_ok (if \<not> ok then set_status s1 (q_id req) ''conflict'' else s1)"
    proof (cases ok)
      case True
      with b show ?thesis by simp
    next
      case False
      with a have "\<not> has_reservation s1 (q_id req)" by (simp add: assign_failed_no_reservation)
      with b False show ?thesis by (simp add: binding_ok_set_status)
    qed
    from Cons.IH [OF this] False a show ?thesis by simp
  qed
qed

lemma filter_remove1_find:
  "find P xs = Some r \<Longrightarrow> filter P (remove1 r xs) = tl (filter P xs)"
  by (induction xs) (auto split: if_splits dest: find_SomeD)

lemma filter_remove1_other: "\<not> Q r \<Longrightarrow> filter Q (remove1 r xs) = filter Q xs"
  by (induction xs) auto

lemma reservations_of_delete:
  "reservations_of (delete_reservation_of s i) j =
     (if j = i then tl (reservations_of s i) else reservations_of s j)"
  by (auto simp: delete_reservation_of_def reservations_of_def filter_remove1_find
        filter_remove1_other find_None_iff filter_empty_conv
      split: option.splits dest: find_SomeD)

lemma get_request_Some: "get_request s i = Some q \<Longrightarrow> q \<in> set (requests s) \<and> q_id q = i"
  by (auto simp: get_request_def dest: find_SomeD)

lemma requests_delete [simp]: "requests (delete_reservation_of s i) = requests s"
  by (simp add: delete_reservation_of_def split: option.splits)

lemma binding_ok_delete_set_status:
  assumes "binding_ok s" "q \<in> set (requests s)" "st \<noteq> ''scheduled''"
  shows "binding_ok (set_status (delete_reservation_of s (q_id q)) (q_id q) st)"
proof -
  from assms(1,2) have le: "length (reservations_of s (q_id q)) \<le> 1"
    by (auto simp: binding_ok_def)
  show ?thesis
    unfolding binding_ok_def
  proof
    fix q' assume "q' \<in> set (requests (set_status (delete_reservation_of s (q_id q)) (q_id q) st))"
    then obtain q0 where q0: "q0 \<in> set (requests s)"
      and q': "q' = (if q_id q0 = q_id q then q0\<lparr>q_status := st\<rparr> else q0)"
      by (auto simp: set_status_def)
    from assms(1) q0 have ok0: "length (reservations_of s (q_id q0)) =
        (if q_status q0 = ''scheduled'' then 1 else 0)" by (simp add: binding_ok_def)
    show "length (reservations_of (set_status (delete_reservation_of s (q_id q)) (q_id q) st) (q_id q')) =
        (if q_status q' = ''scheduled'' then 1 else 0)"
    proof (cases "q_id q0 = q_id q")
      case True
      from le have "tl (reservations_of s (q_id q)) = []"
        by (cases "reservations_of s (q_id q)") auto
      with True q' assms(3) show ?thesis by (simp add: reservations_of_delete)
    next
      case False
      with q' ok0 show ?thesis by (simp add: reservations_of_delete)
    qed
  qed
qed

lemma binding_ok_update_request_status:
  assumes "binding_ok s"
  shows "binding_ok (snd (update_request_status s req_id new_status))"
proof (cases "get_request s req_id")
  case None
  with assms show ?thesis by (simp add: update_request_status_def)
next
  case (Some q)
  then have q: "q \<in> set (requests s)" by (simp add: get_request_Some)
  consider (bad) "new_status \<notin> set [''pending'', ''approved'', ''scheduled'', ''conflict'']"
    | (sched) "new_status = ''scheduled''"
    | (other) "new_status \<in> set [''pending'', ''approved'', ''conflict'']"
    by auto
  then show ?thesis
  proof cases
    case bad
    with Some assms show ?thesis by (simp add: update_request_status_def)
  next
    case sched
    obtain ok s1 where a: "assign_reservation_for_request s q = (ok, s1)" by force
    with binding_ok_assign [OF assms, of q] have b: "binding_ok s1" by simp
    show ?thesis
    proof (cases ok)
      case True
      with Some sched a b show ?thesis by (simp add: update_request_status_def)
    next
      case False
      with a have "\<not> has_reservation s1 (q_id q)" by (simp add: assign_failed_no_reservation)
      with b have "binding_ok (set_status s1 (q_id q) ''conflict'')"
        by (simp add: binding_ok_set_status)
      with Some sched a False show ?thesis by (simp add: update_request_status_def)
    qed
  next
    case other
    then have ns: "new_status \<noteq> ''scheduled''" by auto
    from binding_ok_delete_set_status [OF assms q ns] Some other ns show ?thesis
      by (auto simp: update_request_status_def)
  qed
qed

lemma reservations_of_add:
  "reservations_of (add_reservation s lid rid d p) j =
     reservations_of s j @
       (if j = rid then [\<lparr>r_id = next_id (map r_id (reservations s)), r_lab_id = lid,
                          r_request_id = rid, r_date = d, r_period = p\<rparr>] else [])"
  by (simp add: reservations_of_def add_reservation_def)

lemma binding_ok_manual_commit:
  assumes "binding_ok s" "q \<in> set (requests s)"
  shows "binding_ok (set_status (add_reservation (delete_reservation_of s (q_id q))
                       lid (q_id q) d p) (q_id q) ''scheduled'')"
proof -
  from assms(1,2) have le: "length (reservations_of s (q_id q)) \<le> 1"
    by (auto simp: binding_ok_def)
  show ?thesis
    unfolding binding_ok_def
  proof
    fix q'
    assume "q' \<in> set (requests (set_status (add_reservation (delete_reservation_of s (q_id q))
                       lid (q_id q) d p) (q_id q) ''scheduled''))"
    then obtain q0 where q0: "q0 \<in> set (requests s)"
      and q': "q' = (if q_id q0 = q_id q then q0\<lparr>q_status := ''scheduled''\<rparr> else q0)"
      by (auto simp: set_status_def)
    from assms(1) q0 have ok0: "length (reservations_of s (q_id q0)) =
        (if q_status q0 = ''scheduled'' then 1 else 0)" by (simp add: binding_ok_def)
    show "length (reservations_of (set_status (add_reservation (delete_reservation_of s (q_id q))
                       lid (q_id q) d p) (q_id q) ''scheduled'') (q_id q')) =
        (if q_status q' = ''scheduled'' then 1 else 0)"
    proof (cases "q_id q0 = q_id q")
      case True
      from le have "tl (reservations_of s (q_id q)) = []"
        by (cases "reservations_of s (q_id q)") auto
      with True q' show ?thesis by (simp add: reservations_of_delete reservations_of_add)
    next
      case False
      with q' ok0 show ?thesis by (simp add: reservations_of_delete reservations_of_add)
    qed
  qed
qed

lemma binding_ok_manual_assign:
  assumes "binding_ok s"
  shows "binding_ok (snd (manual_assign int_of s req_id lab_id_str))"
proof (cases "get_request s req_id")
  case None
  with assms show ?thesis by (simp add: manual_assign_def)
next
  case (Some q)
  then have q: "q \<in> set (requests s)" by (simp add: get_request_Some)
  from binding_ok_manual_commit [OF assms q] assms Some show ?thesis
    by (auto simp: manual_assign_def split: option.splits)
qed

text \<open>
  Claim C3. The 1:1 binding is preserved by every core operation: if every request with
  status "scheduled" has exactly one reservation and every request with another status
  has none, the same holds after \<open>_assign_reservation_for_request\<close>, after
  \<open>run_auto_schedule\<close>, after \<open>manual_assign\<close> and after \<open>update_request_status\<close>.
\<close>

theorem binding_preserved:
  assumes "binding_ok s"
  shows "binding_ok (snd (assign_reservation_for_request s req)) \<and>
         binding_ok (snd (run_auto_schedule s)) \<and>
         binding_ok (snd (manual_assign int_of s req_id lab_id_str)) \<and>
         binding_ok (snd (update_request_status s req_id new_status))"
  using assms
  by (simp add: binding_ok_assign binding_ok_auto_loop binding_ok_manual_assign
        binding_ok_update_request_status run_auto_schedule_def)

theorem binding_preserved_witness:
  "binding_ok ex_db \<and>
   binding_ok (snd (assign_reservation_for_request ex_db ex_req1)) \<and>
   binding_ok (snd (run_auto_schedule ex_db)) \<and>
   binding_ok (snd (manual_assign ex_int_of ex_db 1 ''2'')) \<and>
   binding_ok (snd (update_request_status ex_db 7 ''pending''))"
proof -
  have h: "binding_ok ex_db"
    by (simp add: binding_ok_def reservations_of_def ex_defs)
  from binding_preserved [OF h] h show ?thesis by blast
qed

section \<open>Manual assignment across groups\<close>

lemma manual_assign_error_unchanged:
  "fst (manual_assign int_of s req_id lab_id_str) = Inl e \<Longrightarrow>
   snd (manual_assign int_of s req_id lab_id_str) = s"
  by (auto simp: manual_assign_def split: option.splits if_splits)

text \<open>
  Claim C8, as amended. \<open>manual_assign\<close> on an existing request and an existing target lab
  whose group differs from the request's resolved group is always rejected and leaves
  the store as it was. The rejection is GroupMismatch when the lab is active; an
  inactive lab is rejected as inactive, because that test comes first.
\<close>

theorem manual_assign_group_mismatch:
  assumes "get_request s req_id = Some q"
    and "lab_id_str \<noteq> []" and "int_of lab_id_str = Some lid"
    and "get_lab s lid = Some l"
    and "l_subject_group l \<noteq> infer_req_group s q"
  shows "snd (manual_assign int_of s req_id lab_id_str) = s \<and>
         fst (manual_assign int_of s req_id lab_id_str) =
           Inl (if l_is_active l then GroupMismatch else ResourceInactive)"
  using assms by (simp add: manual_assign_def)

theorem manual_assign_group_mismatch_witness:
  "get_request ex_db 1 = Some ex_req1 \<and> ex_int_of ''3'' = Some 3 \<and>
   get_lab ex_db 3 = Some (ex_labs ! 2) \<and>
   l_subject_group (ex_labs ! 2) \<noteq> infer_req_group ex_db ex_req1 \<and>
   l_is_active (ex_labs ! 2) \<and>
   manual_assign ex_int_of ex_db 1 ''3'' = (Inl GroupMismatch, ex_db)"
proof -
  have h1: "get_request ex_db 1 = Some ex_req1" by (simp add: get_request_def ex_defs)
  have h2: "''3'' \<noteq> ([] :: string)" by simp
  have h3: "ex_int_of ''3'' = Some 3" by (simp add: ex_defs)
  have h4: "get_lab ex_db 3 = Some (ex_labs ! 2)" by (simp add: get_lab_def ex_defs)
  have h5: "l_subject_group (ex_labs ! 2) \<noteq> infer_req_group ex_db ex_req1"
    by (simp add: infer_req_group_def ex_defs)
  have h6: "l_is_active (ex_labs ! 2)" by (simp add: ex_defs)
  from manual_assign_group_mismatch
         [where int_of = ex_int_of and lab_id_str = "''3''", OF h1 h2 h3 h4 h5] h6
  have "manual_assign ex_int_of ex_db 1 ''3'' = (Inl GroupMismatch, ex_db)"
    by (simp add: prod_eq_iff)
  with h1 h3 h4 h5 h6 show ?thesis by blast
qed

text \<open>
  The claim as first stated promises GroupMismatch for every target lab of another
  group. Lab 4 of the example is in group Art, request 1 resolves to Science, and the
  rejection is the one for an inactive lab.
\<close>

theorem manual_assign_inactive_counterexample:
  "get_request ex_db 1 = Some ex_req1 \<and> ex_int_of ''4'' = Some 4 \<and>
   get_lab ex_db 4 = Some (ex_labs ! 3) \<and>
   l_subject_group (ex_labs ! 3) \<noteq> infer_req_group ex_db ex_req1 \<and>
   fst (manual_assign ex_int_of ex_db 1 ''4'') = Inl ResourceInactive \<and>
   fst (manual_assign ex_int_of ex_db 1 ''4'') \<noteq> Inl GroupMismatch"
  by (simp add: manual_assign_def get_request_def get_lab_def infer_req_group_def ex_defs)

section \<open>Duplicate submissions\<close>

lemma new_request_error_unchanged:
  "fst (new_request int_of date_of s cu method form now) \<noteq> Inr Redirect_dashboard \<Longrightarrow>
   snd (new_request int_of date_of s cu method form now) = s"
  by (auto simp: new_request_def split: option.splits sum.splits if_splits)

lemma existed_same_Some:
  assumes "q \<in> set (requests s)" "q_teacher_id q = uid"
    "q_status q \<in> set [''pending'', ''approved'', ''scheduled'']"
  shows "\<exists>q'. existed_same s uid (q_date q) (q_period q) = Some q'"
proof -
  have "existed_same s uid (q_date q) (q_period q) \<noteq> None"
    unfolding existed_same_def find_None_iff using assms by blast
  then show ?thesis by auto
qed

text \<open>
  Claim C10. A teacher who already has a request with status "pending", "approved" or
  "scheduled" at some date and period cannot submit another one for that date and
  period: the POST is refused with an error and the store is unchanged, so no request
  record is created. When the rest of the form is valid the refusal is the duplicate
  one.
\<close>

theorem new_request_rejects_duplicate:
  assumes "u_role cu = ''teacher''" and "method = ''POST''"
    and "q \<in> set (requests s)" and "q_teacher_id q = u_id cu"
    and "q_status q \<in> set [''pending'', ''approved'', ''scheduled'']"
    and "int_of (f_period form) = Some (q_period q)"
    and "resolve_date int_of date_of s form = Inr (q_date q, w)"
  shows "(\<exists>e. fst (new_request int_of date_of s cu method form now) = Inl e) \<and>
         snd (new_request int_of date_of s cu method form now) = s \<and>
         (f_class_name form \<noteq> [] \<and> f_period form \<noteq> [] \<and>
          (\<exists>x. resolve_preferred int_of s form
                  (if f_lab_group form \<noteq> [] then f_lab_group form else default_group) = Inr x)
          \<longrightarrow> fst (new_request int_of date_of s cu method form now) = Inl DuplicateRequest)"
proof -
  from existed_same_Some [OF assms(3,4,5)]
  obtain q' where "existed_same s (u_id cu) (q_date q) (q_period q) = Some q'" by blast
  with assms(1,2,6,7) show ?thesis
    by (auto simp: new_request_def split: sum.splits)
qed

theorem new_request_rejects_duplicate_witness:
  "u_role (ex_users ! 0) = ''teacher'' \<and>
   ex_req1 \<in> set (requests ex_db) \<and> q_teacher_id ex_req1 = u_id (ex_users ! 0) \<and>
   q_status ex_req1 \<in> set [''pending'', ''approved'', ''scheduled''] \<and>
   ex_int_of (f_period ex_form) = Some (q_period ex_req1) \<and>
   resolve_date ex_int_of ex_date_of ex_db ex_form = Inr (q_date ex_req1, None) \<and>
   new_request ex_int_of ex_date_of ex_db (ex_users ! 0) ''POST'' ex_form 5 =
     (Inl DuplicateRequest, ex_db)"
proof -
  have h1: "u_role (ex_users ! 0) = ''teacher''" by (simp add: ex_defs)
  have h2: "''POST'' = ''POST''" by simp
  have h3: "ex_req1 \<in> set (requests ex_db)" by (simp add: ex_defs)
  have h4: "q_teacher_id ex_req1 = u_id (ex_users ! 0)" by (simp add: ex_defs)
  have h5: "q_status ex_req1 \<in> set [''pending'', ''approved'', ''scheduled'']"
    by (simp add: ex_defs)
  have h6: "ex_int_of (f_period ex_form) = Some (q_period ex_req1)"
    by (simp add: ex_defs ex_form_def)
  have h7: "resolve_date ex_int_of ex_date_of ex_db ex_form = Inr (q_date ex_req1, None)"
    by (simp add: resolve_date_def ex_form_def ex_date_of_def ex_defs)
  have h8: "f_class_name ex_form \<noteq> [] \<and> f_period ex_form \<noteq> [] \<and>
      (\<exists>x. resolve_preferred ex_int_of ex_db ex_form
               (if f_lab_group ex_form \<noteq> [] then f_lab_group ex_form else default_group) = Inr x)"
    by (simp add: resolve_preferred_def truthy_def ex_form_def)
  from new_request_rejects_duplicate
         [where int_of = ex_int_of and date_of = ex_date_of and form = ex_form and now = 5,
          OF h1 h2 h3 h4 h5 h6 h7] h8
  have "new_request ex_int_of ex_date_of ex_db (ex_users ! 0) ''POST'' ex_form 5 =
     (Inl DuplicateRequest, ex_db)"
    by (simp add: prod_eq_iff)
  with h1 h3 h4 h5 h6 h7 show ?thesis by blast
qed

section \<open>The outcome of a batch run\<close>

lemma auto_loop_step: "auto_loop (req # rest) s = auto_loop rest (batch_step s req)"
  by (simp add: batch_step_def split: prod.splits)

lemma batch_step_cases:
  "batch_step s req = s \<and> has_reservation s (q_id req) \<or>
   (\<exists>l. batch_step s req = commit s req l) \<or>
   batch_step s req =
     set_status (set_lab_group s (q_id req) (infer_req_group s req)) (q_id req) ''conflict''"
  by (auto simp: batch_step_def assign_eq split: option.splits)

lemma requests_fail:
  "requests (set_status (set_lab_group s i g) i st) =
     map (\<lambda>q. if q_id q = i then q\<lparr>q_lab_group := g, q_status := st\<rparr> else q) (requests s)"
  by (simp add: set_status_def set_lab_group_def)

lemma has_reservation_commit:
  "has_reservation (commit s req l) i \<longleftrightarrow> has_reservation s i \<or> i = q_id req"
  by (auto simp: has_reservation_iff reservations_commit)

lemma has_reservation_batch_step:
  "has_reservation s i \<Longrightarrow> has_reservation (batch_step s req) i"
  using batch_step_cases [of s req] by (auto simp: has_reservation_commit)

lemma requests_batch_step:
  assumes "q' \<in> set (requests (batch_step s req))"
  shows "\<exists>q \<in> set (requests s). q_id q = q_id q' \<and>
           (q_status q' = q_status q \<or>
            q_id q' = q_id req \<and> q_status q' \<in> set [''scheduled'', ''conflict''])"
proof -
  consider (same) "batch_step s req = s"
    | (ok) l where "batch_step s req = commit s req l"
    | (fail) "batch_step s req =
        set_status (set_lab_group s (q_id req) (infer_req_group s req)) (q_id req) ''conflict''"
    using batch_step_cases [of s req] by blast
  then show ?thesis
  proof cases
    case same
    with assms show ?thesis by auto
  next
    case ok
    with assms have "q' \<in> set (requests (commit s req l))" by simp
    then obtain q where "q \<in> set (requests s)"
      "q' = (if q_id q = q_id req
             then q\<lparr>q_lab_group := infer_req_group s req, q_status := ''scheduled''\<rparr> else q)"
      unfolding requests_commit by auto
    then show ?thesis by (intro bexI [of _ q]) (auto split: if_splits)
  next
    case fail
    with assms have "q' \<in> set (requests (set_status
        (set_lab_group s (q_id req) (infer_req_group s req)) (q_id req) ''conflict''))" by simp
    then obtain q where "q \<in> set (requests s)"
      "q' = (if q_id q = q_id req
             then q\<lparr>q_lab_group := infer_req_group s req, q_status := ''conflict''\<rparr> else q)"
      unfolding requests_fail by auto
    then show ?thesis by (intro bexI [of _ q]) (auto split: if_splits)
  qed
qed

lemma batch_step_settles:
  assumes "q' \<in> set (requests (batch_step s req))" "q_id q' = q_id req"
    "q_status q' \<in> set [''pending'', ''approved'']"
  shows "has_reservation (batch_step s req) (q_id req)"
proof -
  consider (same) "batch_step s req = s" "has_reservation s (q_id req)"
    | (ok) l where "batch_step s req = commit s req l"
    | (fail) "batch_step s req =
        set_status (set_lab_group s (q_id req) (infer_req_group s req)) (q_id req) ''conflict''"
    using batch_step_cases [of s req] by blast
  then show ?thesis
  proof cases
    case same
    then show ?thesis by simp
  next
    case ok
    then show ?thesis by (simp add: has_reservation_commit)
  next
    case fail
    with assms(1) have "q' \<in> set (requests (set_status
        (set_lab_group s (q_id req) (infer_req_group s req)) (q_id req) ''conflict''))" by simp
    then obtain q where "q \<in> set (requests s)"
      "q' = (if q_id q = q_id req
             then q\<lparr>q_lab_group := infer_req_group s req, q_status := ''conflict''\<rparr> else q)"
      unfolding requests_fail by auto
    with assms(2,3) show ?thesis by (auto split: if_splits)
  qed
qed

lemma settled_batch_step:
  assumes "settled s I"
  shows "settled (batch_step s req) (insert (q_id req) I)"
  unfolding settled_def
proof (intro ballI impI)
  fix q' assume q': "q' \<in> set (requests (batch_step s req))"
    and inI: "q_id q' \<in> insert (q_id req) I"
    and st: "q_status q' \<in> set [''pending'', ''approved'']"
  show "has_reservation (batch_step s req) (q_id q')"
  proof (cases "q_id q' = q_id req")
    case True
    with batch_step_settles [OF q' True st] show ?thesis by simp
  next
    case False
    from requests_batch_step [OF q'] False obtain q where
      q: "q \<in> set (requests s)" "q_id q = q_id q'" "q_status q' = q_status q" by auto
    with inI False st assms have "has_reservation s (q_id q')"
      by (auto simp: settled_def)
    then show ?thesis by (rule has_reservation_batch_step)
  qed
qed

lemma settled_auto_loop:
  "settled s I \<Longrightarrow> settled (auto_loop xs s) (I \<union> q_id ` set xs)"
proof (induction xs arbitrary: s I)
  case Nil
  then show ?case by simp
next
  case (Cons req rest)
  from Cons.IH [OF settled_batch_step [OF Cons.prems, of req]]
  show ?case unfolding auto_loop_step by simp
qed

lemma backlog_auto_loop:
  assumes "q' \<in> set (requests (auto_loop xs s))" "q_status q' \<in> set [''pending'', ''approved'']"
  shows "\<exists>q \<in> set (requests s). q_id q = q_id q' \<and> q_status q = q_status q'"
  using assms
proof (induction xs arbitrary: s)
  case Nil
  then show ?case by auto
next
  case (Cons req rest)
  from Cons.prems(1) have "q' \<in> set (requests (auto_loop rest (batch_step s req)))"
    unfolding auto_loop_step .
  from Cons.IH [OF this Cons.prems(2)]
  obtain q1 where q1: "q1 \<in> set (requests (batch_step s req))" "q_id q1 = q_id q'"
    "q_status q1 = q_status q'" by blast
  from requests_batch_step [OF q1(1)] obtain q where
    "q \<in> set (requests s)" "q_id q = q_id q1"
    "q_status q1 = q_status q \<or> q_status q1 \<in> set [''scheduled'', ''conflict'']" by auto
  with q1 Cons.prems(2) show ?case by (intro bexI [of _ q]) auto
qed

text \<open>
  Claim C5, as amended. \<open>run_auto_schedule\<close> returns no value. What a run achieves is
  in the store only: after it, no request is left "pending" or "approved" without a
  reservation, so every request of the backlog was either given a reservation or marked
  "conflict" (or was skipped because it held a reservation already).
\<close>

theorem run_auto_schedule_outcome:
  "fst (run_auto_schedule s) = () \<and>
   (\<forall>q \<in> set (requests (snd (run_auto_schedule s))).
      q_status q \<in> set [''pending'', ''approved''] \<longrightarrow>
      has_reservation (snd (run_auto_schedule s)) (q_id q))"
proof (intro conjI ballI impI)
  show "fst (run_auto_schedule s) = ()" by simp
next
  fix q' assume q': "q' \<in> set (requests (snd (run_auto_schedule s)))"
    and st: "q_status q' \<in> set [''pending'', ''approved'']"
  from q' have q'': "q' \<in> set (requests (auto_loop (unscheduled s) s))"
    by (simp add: run_auto_schedule_def)
  from backlog_auto_loop [OF q'' st] obtain q where
    q: "q \<in> set (requests s)" "q_id q = q_id q'" "q_status q = q_status q'" by auto
  with st have "q \<in> set (unscheduled s)" by (simp add: unscheduled_def)
  then have "q_id q \<in> q_id ` set (unscheduled s)" by (rule imageI)
  with q(2) have "q_id q' \<in> {} \<union> q_id ` set (unscheduled s)" by simp
  moreover have "settled (auto_loop (unscheduled s) s) ({} \<union> q_id ` set (unscheduled s))"
    by (rule settled_auto_loop) (simp add: settled_def)
  ultimately have "has_reservation (auto_loop (unscheduled s) s) (q_id q')"
    using q'' st unfolding settled_def by blast
  then show "has_reservation (snd (run_auto_schedule s)) (q_id q')"
    by (simp add: run_auto_schedule_def)
qed

theorem run_auto_schedule_outcome_witness:
  "ex_req1 \<in> set (requests (snd (run_auto_schedule ex_db_held))) \<and>
   q_status ex_req1 \<in> set [''pending'', ''approved''] \<and>
   has_reservation (snd (run_auto_schedule ex_db_held)) (q_id ex_req1)"
proof -
  have h1: "ex_req1 \<in> set (requests (snd (run_auto_schedule ex_db_held)))"
    by (simp add: run_auto_schedule_def unscheduled_def has_reservation_def ex_db_held_def
          ex_defs)
  have h2: "q_status ex_req1 \<in> set [''pending'', ''approved'']" by (simp add: ex_defs)
  from run_auto_schedule_outcome [of ex_db_held] h1 h2 show ?thesis by blast
qed

lemma run_ex_db:
  "snd (run_auto_schedule ex_db) =
     ex_db\<lparr>requests := [ex_req0, ex_req1\<lparr>q_status := ''conflict''\<rparr>,
                         ex_req2\<lparr>q_status := ''scheduled''\<rparr>],
           reservations :=
             [\<lparr>r_id = 1, r_lab_id = 1, r_request_id = 7, r_date = 100, r_period = 3\<rparr>,
              \<lparr>r_id = 2, r_lab_id = 2, r_request_id = 2, r_date = 100, r_period = 3\<rparr>]\<rparr>"
  by (simp add: run_auto_schedule_def unscheduled_def batch_key_def has_pref_signal_def
        model_defs ex_defs Let_def less_eq_prod_def)

lemma run_ex_db_full:
  "snd (run_auto_schedule ex_db_full) =
     ex_db_full\<lparr>requests := [ex_req0, ex_req1\<lparr>q_status := ''conflict''\<rparr>,
                              ex_req2\<lparr>q_status := ''scheduled''\<rparr>]\<rparr>"
  by (simp add: run_auto_schedule_def unscheduled_def batch_key_def has_pref_signal_def
        model_defs ex_defs Let_def less_eq_prod_def)

text \<open>
  The claim as first stated has the run return the numbers of assigned and conflicting
  requests. The run on \<open>ex_db\<close> assigns one request and the run on \<open>ex_db_full\<close> assigns
  none, and the two return the same value.
\<close>

theorem run_auto_schedule_counts_counterexample:
  "fst (run_auto_schedule ex_db) = fst (run_auto_schedule ex_db_full) \<and>
   count_status ''scheduled'' ex_db = 1 \<and>
   count_status ''scheduled'' (snd (run_auto_schedule ex_db)) = 2 \<and>
   count_status ''scheduled'' ex_db_full = 2 \<and>
   count_status ''scheduled'' (snd (run_auto_schedule ex_db_full)) = 2"
  unfolding run_ex_db run_ex_db_full by (simp add: count_status_def ex_defs)

section \<open>Batch ordering\<close>

lemma batch_key_le:
  "batch_key s a \<le> batch_key s b \<longleftrightarrow>
     (has_pref_signal s a \<and> \<not> has_pref_signal s b) \<or>
     (has_pref_signal s a = has_pref_signal s b \<and> q_created_at a \<le> q_created_at b)"
  by (auto simp: batch_key_def less_eq_prod_def)

lemma set_unscheduled:
  "set (unscheduled s) =
     {r \<in> set (requests s). q_status r = ''pending'' \<or> q_status r = ''approved''}"
  by (auto simp: unscheduled_def)

lemma sorted_unscheduled: "sorted (map (batch_key s) (unscheduled s))"
  by (simp add: unscheduled_def)

lemma set_attempts: "set (attempts xs s) \<subseteq> set xs"
proof (induction xs arbitrary: s)
  case Nil
  then show ?case by simp
next
  case (Cons req rest)
  show ?case
  proof (cases "has_reservation s (q_id req)")
    case True
    with Cons [of s] show ?thesis by auto
  next
    case False
    obtain ok s1 where a: "assign_reservation_for_request s req = (ok, s1)" by force
    from Cons [of "if \<not> ok then set_status s1 (q_id req) ''conflict'' else s1"] False a
    show ?thesis by auto
  qed
qed

lemma sorted_attempts:
  "sorted (map k xs) \<Longrightarrow> sorted (map k (attempts xs s))"
proof (induction xs arbitrary: s)
  case Nil
  then show ?case by simp
next
  case (Cons req rest)
  then have tl: "sorted (map k rest)" and hd: "\<forall>x \<in> set rest. k req \<le> k x" by auto
  show ?case
  proof (cases "has_reservation s (q_id req)")
    case True
    with Cons.IH [OF tl, of s] show ?thesis by simp
  next
    case False
    obtain ok s1 where a: "assign_reservation_for_request s req = (ok, s1)" by force
    let ?s2 = "if \<not> ok then set_status s1 (q_id req) ''conflict'' else s1"
    from hd set_attempts [of rest ?s2] have "\<forall>x \<in> set (attempts rest ?s2). k req \<le> k x" by blast
    with Cons.IH [OF tl, of ?s2] False a show ?thesis by simp
  qed
qed

lemma sorted_batch_attempts: "sorted (map (batch_key s) (batch_attempts s))"
  unfolding batch_attempts_def by (rule sorted_attempts [OF sorted_unscheduled])

lemma sorted_key_nth:
  assumes "sorted (map k xs)" "i < j" "j < length xs"
  shows "k (xs ! i) \<le> k (xs ! j)"
  using sorted_nth_mono [OF assms(1), of i j] assms(2,3) by simp

lemma batch_step_attempt: "batch_step s req = attempt s req"
  by (simp add: batch_step_def attempt_def assign_eq)

lemma attempts_step:
  "attempts (req # rest) s =
     (if has_reservation s (q_id req) then attempts rest s
      else req # attempts rest (attempt s req))"
  by (simp add: attempt_def split: prod.splits)

lemma auto_loop_attempt:
  "auto_loop (req # rest) s =
     (if has_reservation s (q_id req) then auto_loop rest s
      else auto_loop rest (attempt s req))"
  by (simp add: attempt_def split: prod.splits)

lemma auto_loop_fold_attempts:
  "auto_loop xs s = fold (\<lambda>req st. attempt st req) (attempts xs s) s"
proof (induction xs arbitrary: s)
  case Nil
  then show ?case by simp
next
  case (Cons req rest)
  show ?case unfolding auto_loop_attempt attempts_step using Cons by simp
qed

lemma auto_loop_fold_all:
  "auto_loop xs s = fold (\<lambda>req st. attempt st req) xs s"
proof (induction xs arbitrary: s)
  case Nil
  then show ?case by simp
next
  case (Cons req rest)
  have "auto_loop (req # rest) s = auto_loop rest (attempt s req)"
    unfolding auto_loop_step batch_step_attempt ..
  with Cons show ?case by simp
qed

lemma has_reservation_attempt_other:
  assumes "i \<noteq> q_id req"
  shows "has_reservation (attempt s req) i = has_reservation s i"
  using batch_step_cases [of s req] assms
  unfolding batch_step_attempt by (auto simp: has_reservation_commit)

lemma attempts_all:
  assumes "distinct (map q_id xs)" "\<forall>r \<in> set xs. \<not> has_reservation s (q_id r)"
  shows "attempts xs s = xs"
  using assms
proof (induction xs arbitrary: s)
  case Nil
  then show ?case by simp
next
  case (Cons req rest)
  from Cons.prems have d: "distinct (map q_id rest)" and fresh: "\<not> has_reservation s (q_id req)"
    by auto
  from Cons.prems(1) have "q_id req \<notin> q_id ` set rest" by simp
  then have other: "\<forall>r \<in> set rest. q_id r \<noteq> q_id req" by (metis imageI)
  have "\<forall>r \<in> set rest. \<not> has_reservation (attempt s req) (q_id r)"
    using other Cons.prems(2) by (simp add: has_reservation_attempt_other)
  from Cons.IH [OF d this] fresh show ?case unfolding attempts_step by simp
qed

text \<open>
  Claim C4. \<open>run_auto_schedule\<close> works through the requests with status "pending" or
  "approved" in two tiers. The store it leaves is the one obtained by making the
  attempts of its trace one after the other, and also the one obtained by attempting
  every request of the sorted backlog in turn (the attempt of a request that holds a
  reservation changes nothing). When no request of the backlog holds a reservation and
  their ids differ, the trace is the whole sorted backlog. In the trace a request that
  carries a preference signal (its own preferred lab or its teacher's) never comes after
  one that carries none, and within a tier the attempts are in ascending creation
  order. In particular a request B with a preference is attempted before a request A
  without one, whatever their creation times.
\<close>

theorem batch_order:
  "set (unscheduled s) =
     {r \<in> set (requests s). q_status r = ''pending'' \<or> q_status r = ''approved''} \<and>
   snd (run_auto_schedule s) = fold (\<lambda>req st. attempt st req) (batch_attempts s) s \<and>
   snd (run_auto_schedule s) = fold (\<lambda>req st. attempt st req) (unscheduled s) s \<and>
   set (batch_attempts s) \<subseteq> set (unscheduled s) \<and>
   ((\<forall>r \<in> set (unscheduled s). \<not> has_reservation s (q_id r)) \<and>
    distinct (map q_id (unscheduled s)) \<longrightarrow> batch_attempts s = unscheduled s) \<and>
   (\<forall>i j. i < j \<longrightarrow> j < length (batch_attempts s) \<longrightarrow>
      (has_pref_signal s (batch_attempts s ! j) \<longrightarrow> has_pref_signal s (batch_attempts s ! i)) \<and>
      (has_pref_signal s (batch_attempts s ! i) = has_pref_signal s (batch_attempts s ! j) \<longrightarrow>
         q_created_at (batch_attempts s ! i) \<le> q_created_at (batch_attempts s ! j))) \<and>
   (\<forall>i j. i < length (batch_attempts s) \<longrightarrow> j < length (batch_attempts s) \<longrightarrow>
      \<not> has_pref_signal s (batch_attempts s ! i) \<longrightarrow> has_pref_signal s (batch_attempts s ! j) \<longrightarrow>
      j < i)"
proof (intro conjI allI impI)
  show "set (unscheduled s) =
     {r \<in> set (requests s). q_status r = ''pending'' \<or> q_status r = ''approved''}"
    by (rule set_unscheduled)
  show "snd (run_auto_schedule s) = fold (\<lambda>req st. attempt st req) (batch_attempts s) s"
    by (simp add: run_auto_schedule_def batch_attempts_def auto_loop_fold_attempts)
  show "snd (run_auto_schedule s) = fold (\<lambda>req st. attempt st req) (unscheduled s) s"
    by (simp add: run_auto_schedule_def auto_loop_fold_all)
  show "set (batch_attempts s) \<subseteq> set (unscheduled s)"
    unfolding batch_attempts_def by (rule set_attempts)
  show "batch_attempts s = unscheduled s"
    if "(\<forall>r \<in> set (unscheduled s). \<not> has_reservation s (q_id r)) \<and>
        distinct (map q_id (unscheduled s))"
    unfolding batch_attempts_def using that by (intro attempts_all) auto
next
  fix i j assume ij: "i < j" "j < length (batch_attempts s)"
  from sorted_key_nth [OF sorted_batch_attempts ij]
  have le: "batch_key s (batch_attempts s ! i) \<le> batch_key s (batch_attempts s ! j)" .
  { assume "has_pref_signal s (batch_attempts s ! j)"
    with le show "has_pref_signal s (batch_attempts s ! i)" by (auto simp: batch_key_le) }
  { assume "has_pref_signal s (batch_attempts s ! i) = has_pref_signal s (batch_attempts s ! j)"
    with le show "q_created_at (batch_attempts s ! i) \<le> q_created_at (batch_attempts s ! j)"
      by (auto simp: batch_key_le) }
next
  fix i j
  assume i: "i < length (batch_attempts s)" and j: "j < length (batch_attempts s)"
    and a: "\<not> has_pref_signal s (batch_attempts s ! i)"
    and b: "has_pref_signal s (batch_attempts s ! j)"
  show "j < i"
  proof (rule ccontr)
    assume "\<not> j < i"
    with a b have "i < j" by (cases "i = j") auto
    from sorted_key_nth [OF sorted_batch_attempts this j] a b show False
      by (auto simp: batch_key_le)
  qed
qed

lemma unscheduled_ex_db: "unscheduled ex_db = [ex_req2, ex_req1]"
  by (simp add: unscheduled_def batch_key_def has_pref_signal_def teacher_of_def truthy_def
        ex_defs less_eq_prod_def)

theorem batch_order_witness:
  "unscheduled ex_db = [ex_req2, ex_req1] \<and>
   \<not> has_reservation ex_db (q_id ex_req2) \<and>
   \<not> has_reservation ex_db (q_id ex_req1) \<and>
   distinct (map q_id (unscheduled ex_db)) \<and>
   batch_attempts ex_db = [ex_req2, ex_req1] \<and>
   snd (run_auto_schedule ex_db) = attempt (attempt ex_db ex_req2) ex_req1 \<and>
   q_created_at ex_req1 < q_created_at ex_req2 \<and>
   (1::nat) < length (batch_attempts ex_db) \<and>
   \<not> has_pref_signal ex_db (batch_attempts ex_db ! 1) \<and>
   has_pref_signal ex_db (batch_attempts ex_db ! 0) \<and>
   (0::nat) < 1"
proof -
  have c1: "\<forall>r \<in> set (unscheduled ex_db). \<not> has_reservation ex_db (q_id r)"
    unfolding unscheduled_ex_db by (simp add: has_reservation_def ex_defs)
  have c2: "distinct (map q_id (unscheduled ex_db))"
    unfolding unscheduled_ex_db by (simp add: ex_defs)
  from batch_order [of ex_db] c1 c2 have eq: "batch_attempts ex_db = unscheduled ex_db" by blast
  then have tr: "batch_attempts ex_db = [ex_req2, ex_req1]" by (simp add: unscheduled_ex_db)
  from batch_order [of ex_db]
  have "snd (run_auto_schedule ex_db) =
      fold (\<lambda>req st. attempt st req) (batch_attempts ex_db) ex_db" by blast
  then have run: "snd (run_auto_schedule ex_db) = attempt (attempt ex_db ex_req2) ex_req1"
    unfolding tr by simp
  have h1: "(1::nat) < length (batch_attempts ex_db)"
    and h0: "(0::nat) < length (batch_attempts ex_db)"
    by (simp_all add: tr)
  have h2: "\<not> has_pref_signal ex_db (batch_attempts ex_db ! 1)"
    unfolding tr
    by (simp add: has_pref_signal_def teacher_of_def truthy_def ex_defs)
  have h3: "has_pref_signal ex_db (batch_attempts ex_db ! 0)"
    unfolding tr
    by (simp add: has_pref_signal_def truthy_def ex_defs)
  have h4: "q_created_at ex_req1 < q_created_at ex_req2" by (simp add: ex_defs)
  from batch_order [of ex_db] h1 h0 h2 h3 have "(0::nat) < 1" by blast
  have n2: "\<not> has_reservation ex_db (q_id ex_req2)"
    and n1: "\<not> has_reservation ex_db (q_id ex_req1)"
    by (simp_all add: has_reservation_def ex_defs)
  with \<open>(0::nat) < 1\<close> c2 tr run h1 h2 h3 h4 unscheduled_ex_db show ?thesis by blast
qed

section \<open>The suggestion search\<close>

lemma take_full:
  "k \<le> int (length (take (nat k) xs)) \<Longrightarrow> take (nat k) (xs @ ys) = take (nat k) xs"
  by simp

lemma take_short: "int (length (take (nat k) xs)) < k \<Longrightarrow> take (nat k) xs = xs"
  by simp

lemma found_in_Nil [simp]: "found_in s req g actives d [] = []"
  by (simp add: found_in_def)

lemma take_snoc_exact:
  assumes "int (length acc) < k" "k \<le> int (length acc) + 1"
  shows "take (nat k) (acc @ x # xs) = acc @ [x]"
proof -
  from assms have "nat k = Suc (length acc)" by simp
  then show ?thesis by simp
qed

lemma scan_periods_take:
  assumes "int (length acc) < top_k"
  shows "scan_periods s req g actives top_k d ps acc =
           take (nat top_k) (acc @ found_in s req g actives d ps)"
  using assms
proof (induction ps arbitrary: acc)
  case Nil
  then show ?case by simp
next
  case (Cons p ps)
  define own where "own = (d = q_date req \<and> p = q_period req)"
  define free where "free = free_labs s g actives d p"
  define sg where "sg = mk_suggestion d p free"
  have step: "scan_periods s req g actives top_k d (p # ps) acc =
      (if own then scan_periods s req g actives top_k d ps acc
       else if free = [] then scan_periods s req g actives top_k d ps acc
       else if top_k \<le> int (length acc) + 1 then acc @ [sg]
       else scan_periods s req g actives top_k d ps (acc @ [sg]))"
    using Cons.prems unfolding own_def free_def sg_def by (simp add: Let_def)
  have fstep: "found_in s req g actives d (p # ps) =
      (if own \<or> free = [] then found_in s req g actives d ps
       else sg # found_in s req g actives d ps)"
    unfolding own_def free_def sg_def by (simp add: found_in_def)
  show ?case
  proof (cases "own \<or> free = []")
    case True
    then show ?thesis unfolding step fstep using Cons.IH [OF Cons.prems] by auto
  next
    case hit: False
    show ?thesis
    proof (cases "top_k \<le> int (length acc) + 1")
      case True
      with hit take_snoc_exact [OF Cons.prems True, of sg "found_in s req g actives d ps"]
      show ?thesis unfolding step fstep by simp
    next
      case False
      then have "int (length (acc @ [sg])) < top_k" by simp
      from Cons.IH [OF this] hit False show ?thesis unfolding step fstep by simp
    qed
  qed
qed

lemma date_add_valid:
  "date_min \<le> d + k \<and> d + k \<le> date_max \<Longrightarrow> date_add d k = Inr (d + k)"
  by (simp add: date_add_def)

lemma scan_signs_take:
  assumes "int (length acc) < top_k"
    and "\<forall>sign \<in> set signs. date_min \<le> q_date req + sign * delta_days \<and>
                             q_date req + sign * delta_days \<le> date_max"
  shows "scan_signs s req g actives top_k max_period delta_days signs acc =
           Inr (take (nat top_k) (acc @ found_signs s req g actives max_period delta_days signs))"
  using assms
proof (induction signs arbitrary: acc)
  case Nil
  then show ?case by (simp add: found_signs_def)
next
  case (Cons sign signs)
  define X where "X = found_in s req g actives (q_date req + sign * delta_days) [1..max_period]"
  define Y where "Y = found_signs s req g actives max_period delta_days signs"
  define acc1 where "acc1 = take (nat top_k) (acc @ X)"
  from Cons.prems(2) have ok: "date_add (q_date req) (sign * delta_days) =
      Inr (q_date req + sign * delta_days)"
    by (intro date_add_valid) simp
  from Cons.prems(2) have rest: "\<forall>sign \<in> set signs.
      date_min \<le> q_date req + sign * delta_days \<and> q_date req + sign * delta_days \<le> date_max"
    by simp
  have per: "scan_periods s req g actives top_k (q_date req + sign * delta_days)
               [1..max_period] acc = acc1"
    unfolding acc1_def X_def by (rule scan_periods_take [OF Cons.prems(1)])
  have step: "scan_signs s req g actives top_k max_period delta_days (sign # signs) acc =
      (if top_k \<le> int (length acc1) then Inr acc1
       else scan_signs s req g actives top_k max_period delta_days signs acc1)"
    by (simp add: Let_def per ok)
  have fstep: "found_signs s req g actives max_period delta_days (sign # signs) = X @ Y"
    unfolding X_def Y_def by (simp add: found_signs_def)
  show ?case
  proof (cases "top_k \<le> int (length acc1)")
    case True
    have "take (nat top_k) ((acc @ X) @ Y) = take (nat top_k) (acc @ X)"
      by (rule take_full) (use True in \<open>simp only: acc1_def\<close>)
    then have "take (nat top_k) (acc @ X @ Y) = acc1" by (simp only: append_assoc acc1_def)
    with True show ?thesis unfolding step fstep by (simp only: if_True)
  next
    case False
    then have lt: "int (length acc1) < top_k" by simp
    then have "int (length (take (nat top_k) (acc @ X))) < top_k" by (simp only: acc1_def)
    then have eq: "acc1 = acc @ X" unfolding acc1_def by (rule take_short)
    have ih: "scan_signs s req g actives top_k max_period delta_days signs acc1 =
        Inr (take (nat top_k) (acc1 @ Y))"
      unfolding Y_def by (rule Cons.IH [OF lt rest])
    have "take (nat top_k) (acc1 @ Y) = take (nat top_k) (acc @ X @ Y)"
      by (simp only: eq append_assoc)
    with ih False show ?thesis unfolding step fstep by (simp only: if_False)
  qed
qed

lemma scan_days_take:
  assumes "int (length acc) < top_k"
    and "\<forall>delta_days \<in> set deltas. \<forall>sign \<in> set (if delta_days = 0 then [0] else [-1, 1]).
           date_min \<le> q_date req + sign * delta_days \<and>
           q_date req + sign * delta_days \<le> date_max"
  shows "scan_days s req g actives top_k max_period deltas acc =
           Inr (take (nat top_k) (acc @ found_days s req g actives max_period deltas))"
  using assms
proof (induction deltas arbitrary: acc)
  case Nil
  then show ?case by (simp add: found_days_def)
next
  case (Cons delta_days deltas)
  define signs :: "int list" where "signs = (if delta_days = 0 then [0] else [-1, 1])"
  define X where "X = found_signs s req g actives max_period delta_days signs"
  define Y where "Y = found_days s req g actives max_period deltas"
  define acc1 where "acc1 = take (nat top_k) (acc @ X)"
  from Cons.prems(2) have here: "\<forall>sign \<in> set signs.
      date_min \<le> q_date req + sign * delta_days \<and> q_date req + sign * delta_days \<le> date_max"
    unfolding signs_def by simp
  from Cons.prems(2) have rest: "\<forall>delta_days \<in> set deltas.
      \<forall>sign \<in> set (if delta_days = 0 then [0] else [-1, 1]).
        date_min \<le> q_date req + sign * delta_days \<and> q_date req + sign * delta_days \<le> date_max"
    by simp
  have per: "scan_signs s req g actives top_k max_period delta_days signs acc = Inr acc1"
    unfolding acc1_def X_def by (rule scan_signs_take [OF Cons.prems(1) here])
  have step: "scan_days s req g actives top_k max_period (delta_days # deltas) acc =
      (if top_k \<le> int (length acc1) then Inr acc1
       else scan_days s req g actives top_k max_period deltas acc1)"
    using per unfolding signs_def by simp
  have fstep: "found_days s req g actives max_period (delta_days # deltas) = X @ Y"
    unfolding X_def Y_def signs_def by (simp add: found_days_def)
  show ?case
  proof (cases "top_k \<le> int (length acc1)")
    case True
    have "take (nat top_k) ((acc @ X) @ Y) = take (nat top_k) (acc @ X)"
      by (rule take_full) (use True in \<open>simp only: acc1_def\<close>)
    then have "take (nat top_k) (acc @ X @ Y) = acc1" by (simp only: append_assoc acc1_def)
    with True show ?thesis unfolding step fstep by (simp only: if_True)
  next
    case False
    then have lt: "int (length acc1) < top_k" by simp
    then have "int (length (take (nat top_k) (acc @ X))) < top_k" by (simp only: acc1_def)
    then have eq: "acc1 = acc @ X" unfolding acc1_def by (rule take_short)
    have ih: "scan_days s req g actives top_k max_period deltas acc1 =
        Inr (take (nat top_k) (acc1 @ Y))"
      unfolding Y_def by (rule Cons.IH [OF lt rest])
    have "take (nat top_k) (acc1 @ Y) = take (nat top_k) (acc @ X @ Y)"
      by (simp only: eq append_assoc)
    with ih False show ?thesis unfolding step fstep by (simp only: if_False)
  qed
qed

lemma candidate_dates_cover:
  assumes "\<forall>d \<in> set (candidate_dates d0 day_window). date_min \<le> d \<and> d \<le> date_max"
  shows "\<forall>delta_days \<in> set [0..day_window].
           \<forall>sign \<in> set (if delta_days = 0 then [0] else [-1, 1]).
             date_min \<le> d0 + sign * delta_days \<and> d0 + sign * delta_days \<le> date_max"
proof (intro ballI)
  fix delta_days sign :: int
  assume k: "delta_days \<in> set [0..day_window]"
    and sg: "sign \<in> set (if delta_days = 0 then [0] else [-1, 1])"
  from sg have "d0 + sign * delta_days \<in>
      set (if delta_days = 0 then [d0] else [d0 - delta_days, d0 + delta_days])"
    by (auto split: if_splits)
  with k have "d0 + sign * delta_days \<in> set (candidate_dates d0 day_window)"
    unfolding candidate_dates_def set_concat set_map by blast
  with assms show "date_min \<le> d0 + sign * delta_days \<and> d0 + sign * delta_days \<le> date_max"
    by blast
qed

lemma free_labs_qualifies:
  "free_labs s g (active_labs s g) d p \<noteq> [] \<longleftrightarrow> qualifies s g (d, p)"
proof -
  have "free_labs s g (active_labs s g) d p \<noteq> [] \<longleftrightarrow>
      (\<exists>l \<in> set (active_labs s g). l_id l \<notin> occupied_ids s d p g)"
    by (simp add: free_labs_def filter_empty_conv)
  also have "\<dots> \<longleftrightarrow> (\<exists>l \<in> set (labs s). l_is_active l \<and> l_subject_group l = g \<and>
                            \<not> slot_taken s (l_id l) d p)"
    by (auto simp: set_active_labs occupied_ids_in_group)
  finally show ?thesis by (simp add: qualifies_def)
qed

lemma slots_found_in_gen:
  "map (\<lambda>sg. (sg_date sg, sg_period sg)) (found_in s req g (active_labs s g) d ps) =
     filter (qualifies s g)
       (map (\<lambda>p. (d, p)) (filter (\<lambda>p. \<not> (d = q_date req \<and> p = q_period req)) ps))"
  by (induction ps) (auto simp: found_in_def mk_suggestion_def free_labs_qualifies)

lemma slots_found_in:
  "map (\<lambda>sg. (sg_date sg, sg_period sg))
       (found_in s req g (active_labs s g) d [1..max_period]) =
     filter (qualifies s g) (date_slots req max_period d)"
  unfolding date_slots_def by (rule slots_found_in_gen)

lemma slots_found_signs:
  "map (\<lambda>sg. (sg_date sg, sg_period sg))
       (found_signs s req g (active_labs s g) max_period delta_days signs) =
     filter (qualifies s g)
       (concat (map (date_slots req max_period)
                    (map (\<lambda>sign. q_date req + sign * delta_days) signs)))"
  by (induction signs) (simp_all add: found_signs_def slots_found_in)

lemma slots_found_days:
  "map (\<lambda>sg. (sg_date sg, sg_period sg))
       (found_days s req g (active_labs s g) max_period deltas) =
     filter (qualifies s g)
       (concat (map (date_slots req max_period)
                    (concat (map (\<lambda>k. if k = 0 then [q_date req]
                                       else [q_date req - k, q_date req + k]) deltas))))"
proof (induction deltas)
  case Nil
  then show ?case by (simp add: found_days_def)
next
  case (Cons k deltas)
  have "found_days s req g (active_labs s g) max_period (k # deltas) =
      found_signs s req g (active_labs s g) max_period k (if k = 0 then [0] else [-1, 1]) @
      found_days s req g (active_labs s g) max_period deltas"
    by (simp add: found_days_def)
  moreover have "map (\<lambda>sign. q_date req + sign * k) (if k = 0 then [0] else [-1, 1]) =
      (if k = 0 then [q_date req] else [q_date req - k, q_date req + k])"
    by simp
  ultimately show ?case using Cons by (simp add: slots_found_signs)
qed

lemma found_in_entries:
  "sg \<in> set (found_in s req g actives d ps) \<Longrightarrow>
     sg_free_lab_names sg =
       take 3 (map l_name (free_labs s g actives (sg_date sg) (sg_period sg)))"
  by (auto simp: found_in_def mk_suggestion_def)

lemma found_days_entries:
  "sg \<in> set (found_days s req g actives max_period deltas) \<Longrightarrow>
     sg_free_lab_names sg =
       take 3 (map l_name (free_labs s g actives (sg_date sg) (sg_period sg)))"
  by (auto simp: found_days_def found_signs_def dest: found_in_entries)

text \<open>
  Claim C6, as amended. For top_k of at least 1 and a request all of whose candidate
  dates d0 - day_window .. d0 + day_window are dates of the calendar, the suggestion
  search of \<open>ai_explain_conflict_and_suggest\<close> returns exactly the first top_k qualifying
  candidates of the visit order d0, d0-1, d0+1, d0-2, d0+2, ... out to the day window,
  with the periods 1..max_period ascending on each date and the request's own slot left
  out; a candidate qualifies exactly when some active lab of the resolved group has no
  reservation there, and each suggestion lists up to three free labs by name. With a
  day window of 2, max_period 2 and top_k 1, and (D+1, 2) the only free slot, the list
  is that one entry.
\<close>

theorem suggestion_search:
  assumes "get_request s req_id = Some req" and "1 \<le> top_k"
    and "\<forall>d \<in> set (candidate_dates (q_date req) day_window). date_min \<le> d \<and> d \<le> date_max"
  shows "\<exists>dg. ai_explain_conflict_and_suggest s req_id max_period day_window top_k =
                Inr (Some dg) \<and>
           map (\<lambda>sg. (sg_date sg, sg_period sg)) (dg_suggestions dg) =
             spec_suggestions s req max_period day_window top_k \<and>
           (\<forall>sg \<in> set (dg_suggestions dg).
              sg_free_lab_names sg =
                take 3 (map l_name
                  (free_labs s (infer_req_group s req) (active_labs s (infer_req_group s req))
                     (sg_date sg) (sg_period sg))))"
proof -
  let ?g = "infer_req_group s req"
  let ?found = "found_days s req ?g (active_labs s ?g) max_period [0..day_window]"
  from assms(2) have "int (length ([] :: suggestion list)) < top_k" by simp
  from scan_days_take [OF this candidate_dates_cover [OF assms(3)]]
  have scan: "scan_days s req ?g (active_labs s ?g) top_k max_period [0..day_window] [] =
      Inr (take (nat top_k) ?found)" by simp
  have slots: "map (\<lambda>sg. (sg_date sg, sg_period sg)) (take (nat top_k) ?found) =
      spec_suggestions s req max_period day_window top_k"
    unfolding take_map [symmetric] slots_found_days
    by (simp add: spec_suggestions_def candidate_slots_def candidate_dates_def)
  have names: "\<forall>sg \<in> set (take (nat top_k) ?found). sg_free_lab_names sg =
      take 3 (map l_name (free_labs s ?g (active_labs s ?g) (sg_date sg) (sg_period sg)))"
    by (auto dest: in_set_takeD found_days_entries)
  from assms(1) scan slots names show ?thesis
    by (simp add: ai_explain_conflict_and_suggest_def Let_def)
qed

lemmas explain_defs = ai_explain_conflict_and_suggest_def get_request_def infer_req_group_def
  active_labs_def get_occupied_details_def free_labs_def occupied_ids_def mk_suggestion_def
  date_add_def date_min_def date_max_def

lemma explain_ex_db_scen:
  "ai_explain_conflict_and_suggest ex_db_scen 3 2 2 1 =
     Inr (Some \<lparr>dg_lab_group = ''Art'',
                 dg_occupied = [\<lparr>oc_lab_name = ''Studio'', oc_teacher_name = ''Binh'',
                                 oc_class_name = ''12C''\<rparr>],
                 dg_suggestions = [\<lparr>sg_date = 101, sg_period = 2,
                                    sg_free_lab_names = [''Studio'']\<rparr>]\<rparr>)"
  by (simp add: explain_defs ex_db_scen_def ex_req3_def ex_req4_def ex_labs_def ex_users_def
        Let_def upto.simps)

theorem suggestion_search_witness:
  "get_request ex_db_scen 3 = Some ex_req3 \<and> (1::int) \<le> 1 \<and>
   candidate_dates (q_date ex_req3) 2 = [100, 99, 101, 98, 102] \<and>
   ai_explain_conflict_and_suggest ex_db_scen 3 2 2 1 =
     Inr (Some \<lparr>dg_lab_group = ''Art'',
                 dg_occupied = [\<lparr>oc_lab_name = ''Studio'', oc_teacher_name = ''Binh'',
                                 oc_class_name = ''12C''\<rparr>],
                 dg_suggestions = [\<lparr>sg_date = 101, sg_period = 2,
                                    sg_free_lab_names = [''Studio'']\<rparr>]\<rparr>) \<and>
   spec_suggestions ex_db_scen ex_req3 2 2 1 = [(101, 2)]"
proof -
  have h1: "get_request ex_db_scen 3 = Some ex_req3"
    by (simp add: get_request_def ex_db_scen_def ex_req3_def ex_req4_def)
  have h2: "(1::int) \<le> 1" by simp
  have cd: "candidate_dates (q_date ex_req3) 2 = [100, 99, 101, 98, 102]"
    by (simp add: candidate_dates_def ex_req3_def upto.simps)
  have h3: "\<forall>d \<in> set (candidate_dates (q_date ex_req3) 2). date_min \<le> d \<and> d \<le> date_max"
    unfolding cd by (simp add: date_min_def date_max_def)
  from suggestion_search [OF h1 h2 h3, of 2]
  have "spec_suggestions ex_db_scen ex_req3 2 2 1 = [(101, 2)]"
    by (simp add: explain_ex_db_scen)
  with h1 h2 cd show ?thesis by (simp add: explain_ex_db_scen)
qed

text \<open>
  The claim as first stated covers every top_k and every request. With top_k = 0 the
  first no candidates are the empty list, but the loop tests the limit only after it has
  appended a candidate, and returns the slot (100, 1). For a request on the first day of
  the calendar the search leaves the calendar at d0 - 1 and ends in OverflowError,
  with no list at all.
\<close>

theorem suggestion_search_counterexample:
  "get_request ex_db 1 = Some ex_req1 \<and>
   ai_explain_conflict_and_suggest ex_db 1 1 0 0 =
     Inr (Some \<lparr>dg_lab_group = ''Science'',
                 dg_occupied = [\<lparr>oc_lab_name = ''Lab A'', oc_teacher_name = ''Binh'',
                                 oc_class_name = ''12C''\<rparr>],
                 dg_suggestions = [\<lparr>sg_date = 100, sg_period = 1,
                                    sg_free_lab_names = [''Lab A'', ''Lab B'']\<rparr>]\<rparr>) \<and>
   spec_suggestions ex_db ex_req1 1 0 0 = [] \<and>
   get_request ex_db_min 5 = Some ex_req5 \<and>
   ai_explain_conflict_and_suggest ex_db_min 5 1 1 3 = Inl OverflowError"
  by (simp add: explain_defs spec_suggestions_def ex_defs ex_db_min_def ex_req5_def
        Let_def upto.simps)

end
